theory Spec2Isabelle
  imports Complex_Main "HOL-Library.Multiset"
begin

section \<open>Strings of the platform\<close>

text \<open>
  A JavaScript string is modelled as a list of 8-bit characters: the code units 0 to 255.
  An optional field (\<^verbatim>\<open>phone?: string\<close>) is a \<open>string option\<close>, \<open>None\<close> standing for
  \<^verbatim>\<open>undefined\<close>. The condition \<^verbatim>\<open>if (x)\<close> on such a field holds when the field is there
  and is not the empty string.
\<close>

abbreviation BS :: char where "BS \<equiv> CHR 0x5C"
abbreviation DQ :: char where "DQ \<equiv> CHR 0x22"
abbreviation LF :: char where "LF \<equiv> CHR 0x0A"
abbreviation CR :: char where "CR \<equiv> CHR 0x0D"

definition truthy :: "string option \<Rightarrow> bool" where
  "truthy x = (case x of None \<Rightarrow> False | Some s \<Rightarrow> s \<noteq> [])"

text \<open>\<^verbatim>\<open>x || ''\<close> on an optional string.\<close>

definition orEmpty :: "string option \<Rightarrow> string" where
  "orEmpty x = (case x of None \<Rightarrow> [] | Some s \<Rightarrow> s)"

text \<open>
  \<^verbatim>\<open>s.replace(/c/g, r)\<close> for a pattern that is one literal character and a replacement
  text without \<^verbatim>\<open>$\<close>: every occurrence of the character becomes the replacement.
\<close>

primrec replaceAll :: "char \<Rightarrow> string \<Rightarrow> string \<Rightarrow> string" where
  "replaceAll c r [] = []"
| "replaceAll c r (x # xs) = (if x = c then r else [x]) @ replaceAll c r xs"

text \<open>
  \<^verbatim>\<open>s.trim()\<close>: white space and line terminators are removed at both ends. In the range
  of the model these are the characters 9 to 13, the space and the no-break space.
\<close>

definition isWhiteSpace :: "char \<Rightarrow> bool" where
  "isWhiteSpace c = (c \<in> set [CHR 0x09, LF, CHR 0x0B, CHR 0x0C, CR, CHR 0x20, CHR 0xA0])"

definition trim :: "string \<Rightarrow> string" where
  "trim s = rev (dropWhile isWhiteSpace (rev (dropWhile isWhiteSpace s)))"

text \<open>\<^verbatim>\<open>parts.join(sep)\<close>.\<close>

fun join :: "string \<Rightarrow> string list \<Rightarrow> string" where
  "join sep [] = []"
| "join sep [x] = x"
| "join sep (x # y # ys) = x @ sep @ join sep (y # ys)"

section \<open>MeCard encoder (mecard-encoder.ts)\<close>

record MeCardData =
  name :: string
  phone :: "string option"
  email :: "string option"
  url :: "string option"
  address :: "string option"
  mnote :: "string option"

definition escapeMeCardValue :: "string \<Rightarrow> string" where
  "escapeMeCardValue v =
     replaceAll DQ [BS, DQ]
       (replaceAll CHR '','' [BS, CHR '','']
         (replaceAll CHR '';'' [BS, CHR '';'']
           (replaceAll CHR '':'' [BS, CHR '':'']
             (replaceAll BS [BS, BS] v))))"

text \<open>
  The \<^verbatim>\<open>fields\<close> array of \<^verbatim>\<open>encodeMeCard\<close> before it is joined, as pairs of the key and
  the raw value, in the order of the pushes.
\<close>

definition meCardEntries :: "MeCardData \<Rightarrow> (string \<times> string) list" where
  "meCardEntries d =
     (if name d \<noteq> [] then [(''N'', name d)] else []) @
     (if truthy (phone d) then [(''TEL'', the (phone d))] else []) @
     (if truthy (email d) then [(''EMAIL'', the (email d))] else []) @
     (if truthy (url d) then [(''URL'', the (url d))] else []) @
     (if truthy (address d) then [(''ADR'', the (address d))] else []) @
     (if truthy (mnote d) then [(''NOTE'', the (mnote d))] else [])"

definition meCardField :: "string \<times> string \<Rightarrow> string" where
  "meCardField kv = fst kv @ '':'' @ escapeMeCardValue (snd kv)"

definition encodeMeCard :: "MeCardData \<Rightarrow> string" where
  "encodeMeCard d = ''MECARD:'' @ join '';'' (map meCardField (meCardEntries d)) @ '';;''"

definition validateMeCard :: "MeCardData \<Rightarrow> bool" where
  "validateMeCard d =
     (if name d = [] \<or> trim (name d) = [] then False
      else truthy (phone d) \<or> truthy (email d) \<or> truthy (url d) \<or>
           truthy (address d) \<or> truthy (mnote d))"

subsection \<open>Vocabulary of the MeCard properties\<close>

text \<open>
  The pattern \<^verbatim>\<open>^MECARD:.*;;$\<close>: the text starts with \<^verbatim>\<open>MECARD:\<close>, ends with \<^verbatim>\<open>;;\<close>, and
  what stands between them is matched by \<^verbatim>\<open>.*\<close>, where the dot matches every character
  but a line terminator (line feed and carriage return, in the range of the model).
\<close>

definition isLineTerminator :: "char \<Rightarrow> bool" where
  "isLineTerminator c = (c = LF \<or> c = CR)"

definition matchesMeCardPattern :: "string \<Rightarrow> bool" where
  "matchesMeCardPattern s =
     (9 \<le> length s \<and> take 7 s = ''MECARD:'' \<and> drop (length s - 2) s = '';;'' \<and>
      list_all (\<lambda>c. \<not> isLineTerminator c) (take (length s - 9) (drop 7 s)))"

text \<open>
  A text has no raw special character when, read from the left, every backslash starts an
  escape pair (the backslash and the character after it) and no semicolon, colon or comma
  stands outside such a pair.
\<close>

fun rawFree :: "string \<Rightarrow> bool" where
  "rawFree [] = True"
| "rawFree [c] = (c \<notin> set [BS, CHR '';'', CHR '':'', CHR '',''])"
| "rawFree (c # d # s) =
     (if c = BS then rawFree s
      else c \<notin> set [CHR '';'', CHR '':'', CHR '',''] \<and> rawFree (d # s))"

text \<open>
  Modelled from the spec: the repository has no function that reads an escaped MeCard value
  back. This one inverts the escaping grammar of the specification: a backslash makes the
  character after it literal.
\<close>

fun unescapeMeCardValue :: "string \<Rightarrow> string" where
  "unescapeMeCardValue [] = []"
| "unescapeMeCardValue [c] = [c]"
| "unescapeMeCardValue (c # d # s) =
     (if c = BS then d # unescapeMeCardValue s else c # unescapeMeCardValue (d # s))"

text \<open>What the five replacements of \<^verbatim>\<open>escapeMeCardValue\<close> do to one character.\<close>

definition meCardEscapeChar :: "char \<Rightarrow> string" where
  "meCardEscapeChar c = (if c \<in> set [BS, CHR '':'', CHR '';'', CHR '','', DQ] then [BS, c] else [c])"

text \<open>
  Modelled from the spec: the repository has no reader of MeCard texts. By the escaping
  grammar of the specification a backslash makes the character after it literal, so a
  text is cut at the occurrences of a separator that no backslash escapes; a text is
  closed for a separator when, read from the left, every backslash starts an escape pair
  and the separator stands in such pairs only.
\<close>

fun splitUnescaped :: "char \<Rightarrow> string \<Rightarrow> string list" where
  "splitUnescaped c [] = [[]]"
| "splitUnescaped c [x] = (if x = c then [[], []] else [[x]])"
| "splitUnescaped c (x # y # s) =
     (if x = BS then (case splitUnescaped c s of [] \<Rightarrow> [[x, y]] | h # t \<Rightarrow> (x # y # h) # t)
      else if x = c then [] # splitUnescaped c (y # s)
      else (case splitUnescaped c (y # s) of [] \<Rightarrow> [[x]] | h # t \<Rightarrow> (x # h) # t))"

fun noRaw :: "char \<Rightarrow> string \<Rightarrow> bool" where
  "noRaw c [] = True"
| "noRaw c [x] = (x \<noteq> BS \<and> x \<noteq> c)"
| "noRaw c (x # y # s) = (if x = BS then noRaw c s else x \<noteq> c \<and> noRaw c (y # s))"

text \<open>
  Modelled from the spec: the field values of an output, which the repository has no
  function to read. The fields of an output of the encoder are what stands between
  \<^verbatim>\<open>MECARD:\<close> and the final \<^verbatim>\<open>;;\<close>, split at the unescaped semicolons (no field
  when nothing stands there). The key of a field is what stands before its first
  unescaped colon, its value what stands after it. Decoding gives the keys with the
  values read back.
\<close>

definition meCardBody :: "string \<Rightarrow> string" where
  "meCardBody out = take (length out - 9) (drop 7 out)"

definition outputFields :: "string \<Rightarrow> string list" where
  "outputFields out = (if meCardBody out = [] then [] else splitUnescaped CHR '';'' (meCardBody out))"

definition fieldKey :: "string \<Rightarrow> string" where
  "fieldKey f = hd (splitUnescaped CHR '':'' f)"

definition fieldValue :: "string \<Rightarrow> string" where
  "fieldValue f = join '':'' (tl (splitUnescaped CHR '':'' f))"

definition decodeMeCard :: "string \<Rightarrow> (string \<times> string) list" where
  "decodeMeCard out = map (\<lambda>f. (fieldKey f, unescapeMeCardValue (fieldValue f))) (outputFields out)"


section \<open>vCard encoder (vcard-encoder.ts)\<close>

text \<open>
  The tags of phones, emails and addresses, as qr-types.ts declares them
  (\<^verbatim>\<open>PhoneType\<close>, \<^verbatim>\<open>EmailType\<close>, \<^verbatim>\<open>AddressType\<close>).
\<close>

datatype PhoneType = MobilePhone | HomePhone | WorkPhone | FaxPhone | OtherPhone

datatype EmailType = PersonalEmail | WorkEmail | OtherEmail

datatype AddressType = HomeAddress | WorkAddress | PostalAddress | OtherAddress

record VCardPhone =
  ptype :: PhoneType
  number :: string

record VCardEmail =
  etype :: EmailType
  eaddress :: string

record VCardAddress =
  atype :: AddressType
  street :: "string option"
  city :: "string option"
  state :: "string option"
  postalCode :: "string option"
  country :: "string option"

record VCardSocialMedia =
  linkedin :: "string option"
  twitter :: "string option"
  facebook :: "string option"
  instagram :: "string option"
  website :: "string option"

record VCardData =
  firstName :: string
  middleName :: "string option"
  lastName :: string
  prefix :: "string option"
  suffix :: "string option"
  nickname :: "string option"
  birthday :: "string option"
  photo :: "string option"
  phones :: "VCardPhone list"
  emails :: "VCardEmail list"
  organization :: "string option"
  jobTitle :: "string option"
  department :: "string option"
  role :: "string option"
  logo :: "string option"
  workWebsite :: "string option"
  addresses :: "VCardAddress list"
  socialMedia :: "VCardSocialMedia option"
  vnotes :: "string option"

definition escapeVCardValue :: "string \<Rightarrow> string" where
  "escapeVCardValue v =
     replaceAll LF [BS, CHR ''n'']
       (replaceAll CHR '';'' [BS, CHR '';'']
         (replaceAll CHR '','' [BS, CHR '','']
           (replaceAll BS [BS, BS] v)))"

text \<open>
  The three tables, on the declared tags. In the code each lookup is
  \<^verbatim>\<open>typeMap[type] || fallback\<close> on a plain object; on a declared tag it gives the entry
  of the table. The fallback is for strings outside the declared type, which the
  datatypes leave out (there the lookup also reaches the members every object inherits).
\<close>

fun mapPhoneType :: "PhoneType \<Rightarrow> string" where
  "mapPhoneType MobilePhone = ''CELL''"
| "mapPhoneType HomePhone = ''HOME''"
| "mapPhoneType WorkPhone = ''WORK''"
| "mapPhoneType FaxPhone = ''FAX''"
| "mapPhoneType OtherPhone = ''VOICE''"

fun mapEmailType :: "EmailType \<Rightarrow> string" where
  "mapEmailType PersonalEmail = ''HOME''"
| "mapEmailType WorkEmail = ''WORK''"
| "mapEmailType OtherEmail = ''INTERNET''"

fun mapAddressType :: "AddressType \<Rightarrow> string" where
  "mapAddressType HomeAddress = ''HOME''"
| "mapAddressType WorkAddress = ''WORK''"
| "mapAddressType PostalAddress = ''POSTAL''"
| "mapAddressType OtherAddress = ''INTL''"

text \<open>
  \<^verbatim>\<open>s.replace(/^data:image\/[^;]+;base64,/, '')\<close>: a data URL's head is removed when the text
  starts with \<^verbatim>\<open>data:image/\<close>, at least one character other than a semicolon, and
  \<^verbatim>\<open>;base64,\<close>.
\<close>

definition stripDataUrl :: "string \<Rightarrow> string" where
  "stripDataUrl s =
     (if take 11 s = ''data:image/'' then
        (let r = drop 11 s;
             m = takeWhile (\<lambda>c. c \<noteq> CHR '';'') r;
             t = dropWhile (\<lambda>c. c \<noteq> CHR '';'') r
         in if m \<noteq> [] \<and> take 8 t = '';base64,'' then drop 8 t else s)
      else s)"

text \<open>A line pushed only when its optional field is there and not empty.\<close>

definition optLine :: "string \<Rightarrow> (string \<Rightarrow> string) \<Rightarrow> string option \<Rightarrow> string list" where
  "optLine key f x = (if truthy x then [key @ f (the x)] else [])"

definition phoneLine :: "VCardPhone \<Rightarrow> string" where
  "phoneLine p = ''TEL;TYPE='' @ mapPhoneType (ptype p) @ '':'' @ escapeVCardValue (number p)"

definition emailLine :: "VCardEmail \<Rightarrow> string" where
  "emailLine e = ''EMAIL;TYPE='' @ mapEmailType (etype e) @ '':'' @ escapeVCardValue (eaddress e)"

definition addressLine :: "VCardAddress \<Rightarrow> string" where
  "addressLine a =
     ''ADR;TYPE='' @ mapAddressType (atype a) @ '':'' @
     escapeVCardValue
       (join '';'' [[], [], orEmpty (street a), orEmpty (city a), orEmpty (state a),
                    orEmpty (postalCode a), orEmpty (country a)])"

definition socialLines :: "VCardSocialMedia option \<Rightarrow> string list" where
  "socialLines sm =
     (case sm of
        None \<Rightarrow> []
      | Some m \<Rightarrow>
          optLine ''X-SOCIALPROFILE;TYPE=linkedin:'' escapeVCardValue (linkedin m) @
          optLine ''X-SOCIALPROFILE;TYPE=twitter:'' escapeVCardValue (twitter m) @
          optLine ''X-SOCIALPROFILE;TYPE=facebook:'' escapeVCardValue (facebook m) @
          optLine ''X-SOCIALPROFILE;TYPE=instagram:'' escapeVCardValue (instagram m) @
          optLine ''URL:'' escapeVCardValue (website m))"

text \<open>\<^verbatim>\<open>[prefix, firstName, middleName, lastName, suffix].filter(Boolean).join(' ')\<close>.\<close>

definition fullName :: "VCardData \<Rightarrow> string" where
  "fullName d =
     join '' ''
       (filter (\<lambda>s. s \<noteq> [])
          [orEmpty (prefix d), firstName d, orEmpty (middleName d), lastName d,
           orEmpty (suffix d)])"

definition structuredName :: "VCardData \<Rightarrow> string" where
  "structuredName d =
     join '';''
       [lastName d, firstName d, orEmpty (middleName d), orEmpty (prefix d),
        orEmpty (suffix d)]"

text \<open>The \<^verbatim>\<open>lines\<close> array of \<^verbatim>\<open>encodeVCard\<close>, in the order of the pushes.\<close>

definition vCardLines :: "VCardData \<Rightarrow> string list" where
  "vCardLines d =
     [''BEGIN:VCARD'', ''VERSION:3.0'',
      ''FN:'' @ escapeVCardValue (fullName d),
      ''N:'' @ escapeVCardValue (structuredName d)] @
     optLine ''NICKNAME:'' escapeVCardValue (nickname d) @
     optLine ''BDAY:'' (replaceAll CHR ''-'' []) (birthday d) @
     optLine ''PHOTO;ENCODING=b;TYPE=JPEG:'' stripDataUrl (photo d) @
     map phoneLine (phones d) @
     map emailLine (emails d) @
     optLine ''ORG:'' escapeVCardValue (organization d) @
     optLine ''TITLE:'' escapeVCardValue (jobTitle d) @
     optLine ''X-DEPARTMENT:'' escapeVCardValue (department d) @
     optLine ''ROLE:'' escapeVCardValue (role d) @
     optLine ''LOGO;ENCODING=b;TYPE=JPEG:'' stripDataUrl (logo d) @
     optLine ''URL;TYPE=WORK:'' escapeVCardValue (workWebsite d) @
     map addressLine (addresses d) @
     socialLines (socialMedia d) @
     optLine ''NOTE:'' escapeVCardValue (vnotes d) @
     [''END:VCARD'']"

definition encodeVCard :: "VCardData \<Rightarrow> string" where
  "encodeVCard d = join [CR, LF] (vCardLines d)"

subsection \<open>Vocabulary of the vCard properties\<close>

text \<open>The lines of a text: the pieces between the occurrences of CR LF.\<close>

fun crlfLines :: "string \<Rightarrow> string list" where
  "crlfLines [] = [[]]"
| "crlfLines [c] = [[c]]"
| "crlfLines (c # d # s) =
     (if c = CR \<and> d = LF then [] # crlfLines s
      else (case crlfLines (d # s) of [] \<Rightarrow> [[c]] | h # t \<Rightarrow> (c # h) # t))"

text \<open>\<^verbatim>\<open>s.split(';')\<close>: the pieces between all semicolons, escaped or not.\<close>

fun splitSemicolon :: "string \<Rightarrow> string list" where
  "splitSemicolon [] = [[]]"
| "splitSemicolon (c # s) =
     (if c = CHR '';'' then [] # splitSemicolon s
      else (case splitSemicolon s of [] \<Rightarrow> [[c]] | h # t \<Rightarrow> (c # h) # t))"

text \<open>
  The fields of a structured vCard value (RFC 2426): the pieces between the semicolons
  that no backslash escapes.
\<close>

fun structuredFields :: "string \<Rightarrow> string list" where
  "structuredFields [] = [[]]"
| "structuredFields [c] = (if c = CHR '';'' then [[], []] else [[c]])"
| "structuredFields (c # d # s) =
     (if c = BS then (case structuredFields s of [] \<Rightarrow> [[c, d]] | h # t \<Rightarrow> (c # d # h) # t)
      else if c = CHR '';'' then [] # structuredFields (d # s)
      else (case structuredFields (d # s) of [] \<Rightarrow> [[c]] | h # t \<Rightarrow> (c # h) # t))"

definition nameLines :: "string \<Rightarrow> string list" where
  "nameLines out = filter (\<lambda>l. take 2 l = ''N:'') (crlfLines out)"

text \<open>A record with the two required names and nothing else.\<close>

definition namesOnly :: "string \<Rightarrow> string \<Rightarrow> VCardData" where
 "namesOnly f l = \<lparr>firstName = f, middleName = None, lastName = l, prefix = None,
        suffix = None, nickname = None, birthday = None, photo = None, phones = [],
        emails = [], organization = None, jobTitle = None, department = None, role = None,
        logo = None, workWebsite = None, addresses = [], socialMedia = None, vnotes = None\<rparr>"

text \<open>What the four replacements of \<^verbatim>\<open>escapeVCardValue\<close> do to one character.\<close>

definition vCardEscapeChar :: "char \<Rightarrow> string" where
  "vCardEscapeChar c =
     (if c = LF then [BS, CHR ''n'']
      else if c \<in> set [BS, CHR '','', CHR '';''] then [BS, c] else [c])"


section \<open>Payload formatter and validator (qr-generator.ts)\<close>

text \<open>
  A JavaScript number: a finite value, or one of the three values that are not finite.
  Comparisons with \<^verbatim>\<open>NaN\<close> are false.
\<close>

datatype jsnumber = Num rat | NaN | PosInfinity | NegInfinity

fun numLess :: "jsnumber \<Rightarrow> jsnumber \<Rightarrow> bool" where
  "numLess (Num a) (Num b) = (a < b)"
| "numLess (Num a) PosInfinity = True"
| "numLess (Num a) NegInfinity = False"
| "numLess (Num a) NaN = False"
| "numLess NaN _ = False"
| "numLess PosInfinity _ = False"
| "numLess NegInfinity (Num b) = True"
| "numLess NegInfinity PosInfinity = True"
| "numLess NegInfinity NegInfinity = False"
| "numLess NegInfinity NaN = False"

text \<open>
  A record as the formatter receives it: one of the eight variants of the type
  declarations, or, since the discriminant is only a string at run time, a record whose
  \<^verbatim>\<open>type\<close> is none of the eight (\<open>OtherData t\<close>, carrying that discriminant).
\<close>

datatype QRData =
    URLData string
  | TextData string
  | EmailData string "string option" "string option"
  | PhoneData string
  | SMSData string "string option"
  | LocationData jsnumber jsnumber "string option"
  | VCard VCardData
  | MeCard MeCardData
  | OtherData string

fun typeOf :: "QRData \<Rightarrow> string" where
  "typeOf (URLData _) = ''url''"
| "typeOf (TextData _) = ''text''"
| "typeOf (EmailData _ _ _) = ''email''"
| "typeOf (PhoneData _) = ''phone''"
| "typeOf (SMSData _ _) = ''sms''"
| "typeOf (LocationData _ _ _) = ''location''"
| "typeOf (VCard _) = ''vcard''"
| "typeOf (MeCard _) = ''mecard''"
| "typeOf (OtherData t) = t"

definition knownTypes :: "string list" where
  "knownTypes = [''url'', ''text'', ''email'', ''phone'', ''sms'', ''vcard'', ''mecard'', ''location'']"

text \<open>
  How a call ends: with a value, or with a thrown \<^verbatim>\<open>Error\<close> (its message). A function of
  return type \<^verbatim>\<open>string\<close> has no value that is an error.
\<close>

datatype 'a completion = Normal 'a | Throw string

fun isNormal :: "'a completion \<Rightarrow> bool" where
  "isNormal (Normal _) = True"
| "isNormal (Throw _) = False"

text \<open>
  \<^verbatim>\<open>encodeURIComponent\<close> on the characters of the model: letters, digits and
  \<^verbatim>\<open>- _ . ! ~ * ' ( )\<close> stay; every other character becomes the percent-escapes of its
  UTF-8 bytes (one byte below 128, two from 128 to 255).
\<close>

definition hexDigit :: "nat \<Rightarrow> char" where
  "hexDigit n = ''0123456789ABCDEF'' ! (n mod 16)"

definition percentByte :: "nat \<Rightarrow> string" where
  "percentByte b = [CHR ''%'', hexDigit (b div 16), hexDigit b]"

definition isUnreserved :: "char \<Rightarrow> bool" where
  "isUnreserved c =
     (let n = of_char c :: nat in
      (65 \<le> n \<and> n \<le> 90) \<or> (97 \<le> n \<and> n \<le> 122) \<or> (48 \<le> n \<and> n \<le> 57) \<or>
      c \<in> set [CHR ''-'', CHR ''_'', CHR ''.'', CHR ''!'', CHR ''~'', CHR ''*'', CHR 0x27,
                 CHR ''('', CHR '')''])"

definition encodeURIChar :: "char \<Rightarrow> string" where
  "encodeURIChar c =
     (let n = of_char c :: nat in
      if isUnreserved c then [c]
      else if n < 128 then percentByte n
      else percentByte (192 + n div 64) @ percentByte (128 + n mod 64))"

definition encodeURIComponent :: "string \<Rightarrow> string" where
  "encodeURIComponent s = concat (map encodeURIChar s)"

definition formatEmailData :: "string \<Rightarrow> string option \<Rightarrow> string option \<Rightarrow> string" where
  "formatEmailData em subject body =
     (let params =
            (if truthy subject then [''subject='' @ encodeURIComponent (the subject)] else []) @
            (if truthy body then [''body='' @ encodeURIComponent (the body)] else [])
      in ''mailto:'' @ em @ (if params \<noteq> [] then ''?'' @ join ''&'' params else []))"

definition formatSMSData :: "string \<Rightarrow> string option \<Rightarrow> string" where
  "formatSMSData ph message =
     ''sms:'' @ ph @ (if truthy message then ''?body='' @ encodeURIComponent (the message) else [])"

text \<open>
  The text of a number in a template literal is the platform's; it is a parameter
  (\<open>numberToString\<close>) of the functions that print one.
\<close>

definition formatLocationData :: "(jsnumber \<Rightarrow> string) \<Rightarrow> jsnumber \<Rightarrow> jsnumber \<Rightarrow> string" where
  "formatLocationData numberToString lat lng = ''geo:'' @ numberToString lat @ '','' @ numberToString lng"

fun formatQRData :: "(jsnumber \<Rightarrow> string) \<Rightarrow> QRData \<Rightarrow> string completion" where
  "formatQRData ns (URLData u) = Normal u"
| "formatQRData ns (TextData t) = Normal t"
| "formatQRData ns (EmailData em subject body) = Normal (formatEmailData em subject body)"
| "formatQRData ns (PhoneData ph) = Normal (''tel:'' @ ph)"
| "formatQRData ns (SMSData ph message) = Normal (formatSMSData ph message)"
| "formatQRData ns (LocationData lat lng _) = Normal (formatLocationData ns lat lng)"
| "formatQRData ns (VCard d) = Normal (encodeVCard d)"
| "formatQRData ns (MeCard d) = Normal (encodeMeCard d)"
| "formatQRData ns (OtherData t) = Throw (''Unsupported QR type: '' @ t)"

text \<open>
  \<^verbatim>\<open>generateQRCode\<close> calls \<^verbatim>\<open>formatQRData\<close> first, outside any \<^verbatim>\<open>try\<close>; what it does
  with the payload afterwards (the logo and the styling object of the rendering library)
  is the parameter \<open>createQRCodeStyling\<close>.
\<close>

definition generateQRCode ::
  "(jsnumber \<Rightarrow> string) \<Rightarrow> (string \<Rightarrow> 'q completion) \<Rightarrow> QRData \<Rightarrow> 'q completion" where
  "generateQRCode ns createQRCodeStyling d =
     (case formatQRData ns d of
        Throw e \<Rightarrow> Throw e
      | Normal qrData \<Rightarrow> createQRCodeStyling qrData)"

record ValidationResult =
  valid :: bool
  error :: "string option"

definition invalid :: "string \<Rightarrow> ValidationResult" where
  "invalid msg = \<lparr>valid = False, error = Some msg\<rparr>"

definition validResult :: ValidationResult where
  "validResult = \<lparr>valid = True, error = None\<rparr>"

text \<open>\<^verbatim>\<open>!s || s.trim() === ''\<close> on a string.\<close>

definition blank :: "string \<Rightarrow> bool" where
  "blank s = (s = [] \<or> trim s = [])"

text \<open>
  \<^verbatim>\<open>/^[^\s@]+@[^\s@]+\.[^\s@]+$/\<close>: no white space, exactly one \<^verbatim>\<open>@\<close>, something before
  it, and after it a dot that is neither the first nor the last character.
\<close>

definition isValidEmail :: "string \<Rightarrow> bool" where
  "isValidEmail s =
     (list_all (\<lambda>c. \<not> isWhiteSpace c) s \<and>
      count_list s CHR ''@'' = 1 \<and>
      takeWhile (\<lambda>c. c \<noteq> CHR ''@'') s \<noteq> [] \<and>
      CHR ''.'' \<in> set (butlast (tl (tl (dropWhile (\<lambda>c. c \<noteq> CHR ''@'') s)))))"

text \<open>
  \<^verbatim>\<open>validateQRData\<close>. Whether \<^verbatim>\<open>new URL(url)\<close> accepts a text is the platform's: the
  parameter \<open>parsesAsURL\<close>. A record of none of the eight types matches no \<^verbatim>\<open>case\<close> of
  the \<^verbatim>\<open>switch\<close>, which has no \<^verbatim>\<open>default\<close>, and reaches the final \<^verbatim>\<open>return\<close>.
\<close>

fun validateQRData :: "(string \<Rightarrow> bool) \<Rightarrow> QRData \<Rightarrow> ValidationResult" where
  "validateQRData parsesAsURL (URLData u) =
     (if blank u then invalid ''URL is required''
      else if \<not> parsesAsURL u then invalid ''Invalid URL format''
      else validResult)"
| "validateQRData parsesAsURL (TextData t) =
     (if blank t then invalid ''Text is required'' else validResult)"
| "validateQRData parsesAsURL (EmailData em _ _) =
     (if em = [] \<or> \<not> isValidEmail em then invalid ''Valid email address is required''
      else validResult)"
| "validateQRData parsesAsURL (PhoneData ph) =
     (if blank ph then invalid ''Phone number is required'' else validResult)"
| "validateQRData parsesAsURL (SMSData ph _) =
     (if blank ph then invalid ''Phone number is required'' else validResult)"
| "validateQRData parsesAsURL (LocationData lat lng _) =
     (if numLess lat (Num (- 90)) \<or> numLess (Num 90) lat
        then invalid ''Latitude must be between -90 and 90''
      else if numLess lng (Num (- 180)) \<or> numLess (Num 180) lng
        then invalid ''Longitude must be between -180 and 180''
      else validResult)"
| "validateQRData parsesAsURL (VCard d) =
     (if blank (firstName d) then invalid ''First name is required for VCard''
      else if blank (lastName d) then invalid ''Last name is required for VCard''
      else validResult)"
| "validateQRData parsesAsURL (MeCard d) =
     (if blank (name d) then invalid ''Name is required for MeCard'' else validResult)"
| "validateQRData parsesAsURL (OtherData t) = validResult"

section \<open>History store (local-storage.ts)\<close>

subsection \<open>JSON values and their serialization\<close>

text \<open>
  The record and the colour configuration are opaque to the store: it reads the \<^verbatim>\<open>type\<close>
  property of the record and serializes both with \<^verbatim>\<open>JSON.stringify\<close>. They are modelled as
  JSON values. An object is the list of its properties in insertion order, which is the
  order \<^verbatim>\<open>JSON.stringify\<close> prints them in; a property whose value is \<^verbatim>\<open>undefined\<close> is not
  printed and is left out of the list. A number is carried by the text
  \<^verbatim>\<open>JSON.stringify\<close> prints for it.
\<close>

datatype json =
    JNull
  | JBool bool
  | JNumber string
  | JString string
  | JArray "json list"
  | JObject "(string \<times> json) list"

definition lowerHexDigit :: "nat \<Rightarrow> char" where
  "lowerHexDigit n = ''0123456789abcdef'' ! (n mod 16)"

definition jsonEscapeChar :: "char \<Rightarrow> string" where
  "jsonEscapeChar c =
     (let n = of_char c :: nat in
      if c = DQ then [BS, DQ]
      else if c = BS then [BS, BS]
      else if c = CHR 0x08 then [BS, CHR ''b'']
      else if c = CHR 0x0C then [BS, CHR ''f'']
      else if c = LF then [BS, CHR ''n'']
      else if c = CR then [BS, CHR ''r'']
      else if c = CHR 0x09 then [BS, CHR ''t'']
      else if n < 32 then [BS, CHR ''u'', CHR ''0'', CHR ''0'', lowerHexDigit (n div 16), lowerHexDigit n]
      else [c])"

definition jsonQuote :: "string \<Rightarrow> string" where
  "jsonQuote s = [DQ] @ concat (map jsonEscapeChar s) @ [DQ]"

fun stringify :: "json \<Rightarrow> string" where
  "stringify JNull = ''null''"
| "stringify (JBool b) = (if b then ''true'' else ''false'')"
| "stringify (JNumber t) = t"
| "stringify (JString s) = jsonQuote s"
| "stringify (JArray xs) = ''['' @ join '','' (map stringify xs) @ '']''"
| "stringify (JObject kvs) =
     ''{'' @ join '','' (map (\<lambda>kv. jsonQuote (fst kv) @ '':'' @ stringify (snd kv)) kvs) @ ''}''"

text \<open>
  \<^verbatim>\<open>new Blob([text]).size\<close>: the length of the UTF-8 encoding, one byte for a character
  below 128 and two for the others of the model.
\<close>

definition byteLength :: "string \<Rightarrow> nat" where
  "byteLength s = sum_list (map (\<lambda>c. if (of_char c :: nat) < 128 then 1 else 2) s)"

text \<open>The decimal text of an integer, as a template literal prints \<^verbatim>\<open>Date.now()\<close>.\<close>

fun showNat :: "nat \<Rightarrow> string" where
  "showNat n =
     (if n < 10 then [''0123456789'' ! n]
      else showNat (n div 10) @ [''0123456789'' ! (n mod 10)])"

definition showInt :: "int \<Rightarrow> string" where
  "showInt i = (if i < 0 then ''-'' @ showNat (nat (- i)) else showNat (nat i))"

subsection \<open>Data model (qr-types.ts)\<close>

text \<open>\<^verbatim>\<open>data.type\<close>: the string under the key \<^verbatim>\<open>type\<close>, or \<open>None\<close> for \<^verbatim>\<open>undefined\<close>.\<close>

definition dataType :: "json \<Rightarrow> string option" where
  "dataType d =
     (case d of
        JObject kvs \<Rightarrow> (case map_of kvs ''type'' of Some (JString t) \<Rightarrow> Some t | _ \<Rightarrow> None)
      | _ \<Rightarrow> None)"

record HistoryItem =
  itemId :: string
  timestamp :: int
  itemType :: "string option"
  itemData :: json
  colors :: json
  thumbnail :: string

record StorageSchema =
  version :: int
  items :: "HistoryItem list"

definition STORAGE_VERSION :: int where
  "STORAGE_VERSION = 1"

definition MAX_ITEMS :: nat where
  "MAX_ITEMS = 50"

definition MAX_STORAGE_SIZE :: nat where
  "MAX_STORAGE_SIZE = 5 * 1024 * 1024"

definition stringifyItem :: "HistoryItem \<Rightarrow> string" where
  "stringifyItem it =
     ''{'' @
     join '',''
       ([jsonQuote ''id'' @ '':'' @ jsonQuote (itemId it),
         jsonQuote ''timestamp'' @ '':'' @ showInt (timestamp it)] @
        (case itemType it of None \<Rightarrow> [] | Some t \<Rightarrow> [jsonQuote ''type'' @ '':'' @ jsonQuote t]) @
        [jsonQuote ''data'' @ '':'' @ stringify (itemData it),
         jsonQuote ''colors'' @ '':'' @ stringify (colors it),
         jsonQuote ''thumbnail'' @ '':'' @ jsonQuote (thumbnail it)]) @
     ''}''"

definition stringifySchema :: "StorageSchema \<Rightarrow> string" where
  "stringifySchema s =
     ''{'' @ jsonQuote ''version'' @ '':'' @ showInt (version s) @ '','' @
     jsonQuote ''items'' @ '':['' @ join '','' (map stringifyItem (items s)) @ '']}''"

definition schemaSize :: "StorageSchema \<Rightarrow> nat" where
  "schemaSize s = byteLength (stringifySchema s)"

subsection \<open>The persistent slot\<close>

text \<open>
  The state of \<^verbatim>\<open>localStorage\<close> as the store sees it. \<open>available\<close> is the outcome of the
  probe \<^verbatim>\<open>isStorageAvailable\<close>. The slot under \<^verbatim>\<open>STORAGE_KEY\<close> is empty (\<^verbatim>\<open>getItem\<close> gives
  \<^verbatim>\<open>null\<close> or the empty text), holds a text that \<^verbatim>\<open>JSON.parse\<close> rejects, or holds the text
  of a schema, kept here as the schema it parses to. \<open>capacity\<close> is the quota: with
  \<open>Some n\<close>, \<^verbatim>\<open>setItem\<close> throws on a text of more than \<open>n\<close> code units.
\<close>

datatype slot = Empty | Unreadable | Doc StorageSchema

record Storage =
  available :: bool
  capacity :: "nat option"
  slot :: slot

definition isStorageAvailable :: "Storage \<Rightarrow> bool" where
  "isStorageAvailable st = available st"

definition createEmptySchema :: StorageSchema where
  "createEmptySchema = \<lparr>version = STORAGE_VERSION, items = []\<rparr>"

definition migrateSchema :: "StorageSchema \<Rightarrow> StorageSchema" where
  "migrateSchema oldSchema = createEmptySchema"

definition loadSchema :: "Storage \<Rightarrow> StorageSchema" where
  "loadSchema st =
     (if \<not> isStorageAvailable st then createEmptySchema
      else (case slot st of
              Empty \<Rightarrow> createEmptySchema
            | Unreadable \<Rightarrow> createEmptySchema
            | Doc schema \<Rightarrow>
                if version schema \<noteq> STORAGE_VERSION then migrateSchema schema else schema))"

definition saveSchema :: "StorageSchema \<Rightarrow> Storage \<Rightarrow> Storage completion" where
  "saveSchema schema st =
     (if \<not> isStorageAvailable st then Throw ''Local storage is not available''
      else (case capacity st of
              None \<Rightarrow> Normal (st\<lparr>slot := Doc schema\<rparr>)
            | Some n \<Rightarrow>
                if n < length (stringifySchema schema) then Throw ''QuotaExceededError''
                else Normal (st\<lparr>slot := Doc schema\<rparr>)))"

subsection \<open>Operations\<close>

text \<open>
  What one call of \<^verbatim>\<open>saveToHistory\<close> takes from its environment: the clock read by
  \<^verbatim>\<open>generateId\<close>, the seven characters it takes from \<^verbatim>\<open>Math.random\<close>, the clock read for
  the time stamp, and the data URL that \<^verbatim>\<open>generateThumbnail\<close> returns (the empty text when
  the rendering fails: it catches every error).
\<close>

record Env =
  idClock :: int
  randomPart :: string
  clock :: int
  thumbnailUrl :: string

definition generateId :: "Env \<Rightarrow> string" where
  "generateId e = showInt (idClock e) @ ''_'' @ randomPart e"

function enforceStorageLimit :: "StorageSchema \<Rightarrow> StorageSchema" where
  "enforceStorageLimit schema =
     (if MAX_STORAGE_SIZE < schemaSize schema \<and> 1 < length (items schema)
      then enforceStorageLimit (schema\<lparr>items := butlast (items schema)\<rparr>)
      else schema)"
  by pat_completeness auto
termination
  by (relation "measure (\<lambda>s. length (items s))") auto

definition isDuplicate :: "json \<Rightarrow> HistoryItem list \<Rightarrow> bool" where
  "isDuplicate d its =
     list_ex (\<lambda>it. itemType it = dataType d \<and> stringify (itemData it) = stringify d) its"

definition newHistoryItem :: "Env \<Rightarrow> json \<Rightarrow> json \<Rightarrow> HistoryItem" where
  "newHistoryItem e d c =
     \<lparr>itemId = generateId e, timestamp = clock e, itemType = dataType d, itemData = d,
      colors = c, thumbnail = thumbnailUrl e\<rparr>"

definition saveToHistory ::
  "Env \<Rightarrow> json \<Rightarrow> json \<Rightarrow> Storage \<Rightarrow> HistoryItem option \<times> Storage" where
  "saveToHistory e d c st =
     (let schema = loadSchema st in
      if isDuplicate d (items schema) then (None, st)
      else
        let historyItem = newHistoryItem e d c;
            unshifted = historyItem # items schema;
            limited = (if MAX_ITEMS < length unshifted then take MAX_ITEMS unshifted else unshifted);
            enforced = enforceStorageLimit (schema\<lparr>items := limited\<rparr>)
        in (case saveSchema enforced st of
              Throw _ \<Rightarrow> (None, st)
            | Normal st' \<Rightarrow> (Some historyItem, st')))"

definition getHistory :: "Storage \<Rightarrow> HistoryItem list" where
  "getHistory st = items (loadSchema st)"

definition getHistoryItem :: "string \<Rightarrow> Storage \<Rightarrow> HistoryItem option" where
  "getHistoryItem i st = find (\<lambda>it. itemId it = i) (items (loadSchema st))"

definition deleteHistoryItem :: "string \<Rightarrow> Storage \<Rightarrow> bool \<times> Storage" where
  "deleteHistoryItem i st =
     (let schema = loadSchema st;
          kept = filter (\<lambda>it. itemId it \<noteq> i) (items schema)
      in if length kept < length (items schema)
         then (case saveSchema (schema\<lparr>items := kept\<rparr>) st of
                 Throw _ \<Rightarrow> (False, st)
               | Normal st' \<Rightarrow> (True, st'))
         else (False, st))"

definition clearHistory :: "Storage \<Rightarrow> bool \<times> Storage" where
  "clearHistory st =
     (case saveSchema \<lparr>version = STORAGE_VERSION, items = []\<rparr> st of
        Throw _ \<Rightarrow> (False, st)
      | Normal st' \<Rightarrow> (True, st'))"

definition getStorageSize :: "Storage \<Rightarrow> nat" where
  "getStorageSize st = schemaSize (loadSchema st)"

text \<open>
  What \<^verbatim>\<open>JSON.parse\<close> makes of the text given to \<^verbatim>\<open>importHistoryFromJSON\<close>: it throws, or
  it gives a value, of which the function reads the property \<^verbatim>\<open>version\<close> (\<open>None\<close>:
  \<^verbatim>\<open>undefined\<close>) and the property \<^verbatim>\<open>items\<close> (\<open>None\<close>: not an array; otherwise history
  items, as the type declaration of the schema has them).
\<close>

datatype payload = ParseError | Parsed "json option" "HistoryItem list option"

text \<open>The truth value of \<^verbatim>\<open>schema.version\<close> in \<^verbatim>\<open>!schema.version\<close>.\<close>

fun jsTruthy :: "json option \<Rightarrow> bool" where
  "jsTruthy None = False"
| "jsTruthy (Some JNull) = False"
| "jsTruthy (Some (JBool b)) = b"
| "jsTruthy (Some (JNumber t)) = (t \<noteq> ''0'')"
| "jsTruthy (Some (JString s)) = (s \<noteq> [])"
| "jsTruthy (Some (JArray _)) = True"
| "jsTruthy (Some (JObject _)) = True"

text \<open>
  The \<^verbatim>\<open>forEach\<close> over the existing items: an item is pushed unless an item of the merged
  list, as it stands at that moment, has its id.
\<close>

fun mergeExisting :: "HistoryItem list \<Rightarrow> HistoryItem list \<Rightarrow> HistoryItem list" where
  "mergeExisting mergedItems [] = mergedItems"
| "mergeExisting mergedItems (existingItem # rest) =
     mergeExisting
       (if list_ex (\<lambda>item. itemId item = itemId existingItem) mergedItems then mergedItems
        else mergedItems @ [existingItem])
       rest"

text \<open>\<^verbatim>\<open>sort((a, b) => b.timestamp - a.timestamp)\<close>: a stable sort, newest first.\<close>

definition sortNewestFirst :: "HistoryItem list \<Rightarrow> HistoryItem list" where
  "sortNewestFirst its = sort_key (\<lambda>it. - timestamp it) its"

definition importHistoryFromJSON :: "payload \<Rightarrow> Storage \<Rightarrow> bool \<times> Storage" where
  "importHistoryFromJSON p st =
     (case p of
        ParseError \<Rightarrow> (False, st)
      | Parsed v its \<Rightarrow>
          if \<not> jsTruthy v \<or> its = None then (False, st)
          else
            let existingSchema = loadSchema st;
                mergedItems = mergeExisting (the its) (items existingSchema);
                limitedItems = take MAX_ITEMS (sortNewestFirst mergedItems)
            in (case saveSchema \<lparr>version = STORAGE_VERSION, items = limitedItems\<rparr> st of
                  Throw _ \<Rightarrow> (False, st)
                | Normal st' \<Rightarrow> (True, st')))"

subsection \<open>Vocabulary of the formatter properties\<close>

text \<open>
  A value for the parameter \<open>numberToString\<close> in closed statements: the platform's text
  of a number that is an integer (of magnitude below \<open>10\<^sup>2\<^sup>1\<close>) or not finite.
\<close>

definition integerText :: "jsnumber \<Rightarrow> string" where
  "integerText n =
     (case n of
        Num q \<Rightarrow> showInt \<lfloor>q\<rfloor>
      | NaN \<Rightarrow> ''NaN''
      | PosInfinity \<Rightarrow> ''Infinity''
      | NegInfinity \<Rightarrow> ''-Infinity'')"

subsection \<open>Vocabulary of the store properties\<close>

text \<open>
  Of the items that share an id, the first one only.
\<close>

fun firstOfEachId :: "HistoryItem list \<Rightarrow> HistoryItem list" where
  "firstOfEachId [] = []"
| "firstOfEachId (x # xs) = x # firstOfEachId (filter (\<lambda>y. itemId y \<noteq> itemId x) xs)"

text \<open>
  Concrete stores, records and items for the closed statements: a fresh store without a
  quota, a store holding given items, a text record, the default colours, an item of the
  history and the environment of one call.
\<close>

definition emptyStorage :: Storage where
  "emptyStorage = \<lparr>available = True, capacity = None, slot = Empty\<rparr>"

definition textRecord :: "string \<Rightarrow> json" where
  "textRecord t = JObject [(''type'', JString ''text''), (''text'', JString t)]"

definition plainColors :: json where
  "plainColors = JObject [(''foreground'', JString ''#4a28fd''), (''background'', JString ''#ffffff'')]"

definition sampleItem :: "string \<Rightarrow> int \<Rightarrow> string \<Rightarrow> HistoryItem" where
  "sampleItem i t txt =
     \<lparr>itemId = i, timestamp = t, itemType = Some ''text'', itemData = textRecord txt,
      colors = plainColors, thumbnail = ''data:image/png;base64,AAAA''\<rparr>"

definition itemA :: HistoryItem where "itemA = sampleItem ''x'' 2 ''first''"

definition itemB :: HistoryItem where "itemB = sampleItem ''x'' 1 ''second''"

definition itemC :: HistoryItem where "itemC = sampleItem ''y'' 3 ''third''"

definition storeOf :: "HistoryItem list \<Rightarrow> Storage" where
  "storeOf its = \<lparr>available = True, capacity = None, slot = Doc \<lparr>version = 1, items = its\<rparr>\<rparr>"

definition sampleEnv :: Env where
  "sampleEnv = \<lparr>idClock = 1700000000000, randomPart = ''k3j9x2a'', clock = 1700000000001,
                 thumbnailUrl = ''data:image/png;base64,AAAA''\<rparr>"

text \<open>
  A record handed to \<^verbatim>\<open>saveToHistory\<close> with the environment of its call, the item the call
  makes of it, a sequence of such calls, and the history they leave on a fresh store when
  nothing is refused and the size limit evicts nothing.
\<close>

definition itemOf :: "Env \<times> json \<times> json \<Rightarrow> HistoryItem" where
  "itemOf r = newHistoryItem (fst r) (fst (snd r)) (snd (snd r))"

fun saveAll :: "(Env \<times> json \<times> json) list \<Rightarrow> Storage \<Rightarrow> Storage" where
  "saveAll [] st = st"
| "saveAll (r # rs) st = saveAll rs (snd (saveToHistory (fst r) (fst (snd r)) (snd (snd r)) st))"

definition historyAfter :: "(Env \<times> json \<times> json) list \<Rightarrow> HistoryItem list" where
  "historyAfter rs = take MAX_ITEMS (rev (map itemOf rs))"

definition schemaOf :: "HistoryItem list \<Rightarrow> StorageSchema" where
  "schemaOf its = \<lparr>version = STORAGE_VERSION, items = its\<rparr>"

text \<open>The mutations of the store that local-storage.ts has.\<close>

datatype mutation = Save Env json json | Delete string | Clear | Import payload

fun applyMutation :: "mutation \<Rightarrow> Storage \<Rightarrow> Storage" where
  "applyMutation (Save e d c) st = snd (saveToHistory e d c st)"
| "applyMutation (Delete i) st = snd (deleteHistoryItem i st)"
| "applyMutation Clear st = snd (clearHistory st)"
| "applyMutation (Import p) st = snd (importHistoryFromJSON p st)"

text \<open>
  Fifty-one distinct text records with the default colours for the closed statements, the
  \<open>k\<close>-th with a text of \<open>k + 1\<close> characters.
\<close>

definition sampleRecord :: "nat \<Rightarrow> Env \<times> json \<times> json" where
  "sampleRecord k =
     (sampleEnv\<lparr>randomPart := replicate 7 (char_of (65 + k))\<rparr>,
      textRecord (replicate (Suc k) CHR ''x''), plainColors)"

text \<open>
  A storage with the quota of the common browsers, 5,242,880 code units, and large text
  records: the text of the \<open>k\<close>-th is \<open>wideLength + k\<close> times the character 233, which is
  one code unit in the storage and two bytes in UTF-8.
\<close>

definition quotaStorage :: Storage where
  "quotaStorage = \<lparr>available = True, capacity = Some 5242880, slot = Empty\<rparr>"

definition wideLength :: nat where
  "wideLength = 2700000"

definition wideText :: "nat \<Rightarrow> json" where
  "wideText k = textRecord (replicate (wideLength + k) (CHR 0xE9))"

definition wideRecord :: "nat \<Rightarrow> Env \<times> json \<times> json" where
  "wideRecord k = (sampleEnv, wideText k, plainColors)"

subsection \<open>Update in place\<close>

text \<open>
  Modelled from the spec: \<^verbatim>\<open>updateHistoryItem\<close>, which page.tsx imports from
  local-storage.ts, is not in the file. The specification has it load the schema and
  return \<^verbatim>\<open>null\<close> when no item has the id; otherwise regenerate the thumbnail, replace the
  time stamp by the current time and the data and colours by the new values, keep the id,
  persist the schema with the item at its position, and return the updated item. A write
  that fails is reported by \<^verbatim>\<open>null\<close>, as the specification says of the write paths.
\<close>

definition updateHistoryItem ::
  "Env \<Rightarrow> string \<Rightarrow> json \<Rightarrow> json \<Rightarrow> Storage \<Rightarrow> HistoryItem option \<times> Storage" where
  "updateHistoryItem e i d c st =
     (let schema = loadSchema st in
      case find (\<lambda>it. itemId it = i) (items schema) of
        None \<Rightarrow> (None, st)
      | Some old \<Rightarrow>
          let index = length (takeWhile (\<lambda>it. itemId it \<noteq> i) (items schema));
              updated = old\<lparr>timestamp := clock e, itemData := d, colors := c,
                            thumbnail := thumbnailUrl e\<rparr>
          in (case saveSchema (schema\<lparr>items := (items schema)[index := updated]\<rparr>) st of
                Throw _ \<Rightarrow> (None, st)
              | Normal st' \<Rightarrow> (Some updated, st')))"

section \<open>Facts about the string primitives\<close>

lemma replaceAll_append: "replaceAll c r (xs @ ys) = replaceAll c r xs @ replaceAll c r ys"
  by (induction xs) simp_all


section \<open>Properties of the MeCard encoder\<close>

lemma escapeMeCardValue_Nil: "escapeMeCardValue [] = []"
  by (simp add: escapeMeCardValue_def)

lemma escapeMeCardValue_Cons:
  "escapeMeCardValue (c # v) = meCardEscapeChar c @ escapeMeCardValue v"
  by (simp add: escapeMeCardValue_def meCardEscapeChar_def replaceAll_append)

lemma rawFree_plain: "c \<notin> set [BS, CHR '';'', CHR '':'', CHR '',''] \<Longrightarrow> rawFree (c # s) = rawFree s"
  by (cases s) auto

lemma rawFree_escape: "rawFree (escapeMeCardValue v)"
proof (induction v)
  case Nil
  show ?case by (simp add: escapeMeCardValue_Nil)
next
  case (Cons c v)
  show ?case
  proof (cases "c \<in> set [BS, CHR '':'', CHR '';'', CHR '','', DQ]")
    case True
    then have "meCardEscapeChar c = [BS, c]" by (simp add: meCardEscapeChar_def)
    then show ?thesis using Cons by (simp add: escapeMeCardValue_Cons)
  next
    case False
    then have e: "meCardEscapeChar c = [c]" by (simp add: meCardEscapeChar_def)
    from False have "c \<notin> set [BS, CHR '';'', CHR '':'', CHR '','']" by auto
    then have "rawFree (c # escapeMeCardValue v) = rawFree (escapeMeCardValue v)"
      by (rule rawFree_plain)
    then show ?thesis using Cons e by (simp add: escapeMeCardValue_Cons)
  qed
qed

lemma unescape_plain: "c \<noteq> BS \<Longrightarrow> unescapeMeCardValue (c # s) = c # unescapeMeCardValue s"
  by (cases s) auto

lemma unescape_escape: "unescapeMeCardValue (escapeMeCardValue v) = v"
proof (induction v)
  case Nil
  show ?case by (simp add: escapeMeCardValue_Nil)
next
  case (Cons c v)
  show ?case
  proof (cases "c \<in> set [BS, CHR '':'', CHR '';'', CHR '','', DQ]")
    case True
    then have "meCardEscapeChar c = [BS, c]" by (simp add: meCardEscapeChar_def)
    then show ?thesis using Cons by (simp add: escapeMeCardValue_Cons)
  next
    case False
    then have e: "meCardEscapeChar c = [c]" by (simp add: meCardEscapeChar_def)
    from False have "c \<noteq> BS" by auto
    then show ?thesis using Cons e by (simp add: escapeMeCardValue_Cons unescape_plain)
  qed
qed

lemma escape_no_LT: "list_all (\<lambda>c. \<not> isLineTerminator c) (escapeMeCardValue v) = list_all (\<lambda>c. \<not> isLineTerminator c) v"
  by (induction v) (auto simp: escapeMeCardValue_Nil escapeMeCardValue_Cons meCardEscapeChar_def isLineTerminator_def)

lemma list_all_join:
  "list_all P sep \<Longrightarrow> list_all P (join sep xs) = list_all (list_all P) xs"
  by (induction sep xs rule: join.induct) simp_all

lemma meCardField_LT:
  "list_all (\<lambda>c. \<not> isLineTerminator c) (meCardField kv)
   = (list_all (\<lambda>c. \<not> isLineTerminator c) (fst kv) \<and> list_all (\<lambda>c. \<not> isLineTerminator c) (snd kv))"
proof -
  have "\<not> isLineTerminator CHR '':''" by (simp add: isLineTerminator_def)
  then show ?thesis by (simp add: meCardField_def escape_no_LT)
qed

lemma meCardEntries_keys:
  "list_all (\<lambda>kv. list_all (\<lambda>c. \<not> isLineTerminator c) (fst kv)) (meCardEntries d)"
  by (simp add: meCardEntries_def isLineTerminator_def)

lemma meCardField_no_LT:
  "list_all (\<lambda>kv. list_all (\<lambda>c. \<not> isLineTerminator c) (meCardField kv)) (meCardEntries d)
   = list_all (\<lambda>kv. list_all (\<lambda>c. \<not> isLineTerminator c) (snd kv)) (meCardEntries d)"
  by (simp add: meCardEntries_def meCardField_LT) (simp add: isLineTerminator_def)

lemma matches_wrap:
  "matchesMeCardPattern (''MECARD:'' @ body @ '';;'') = list_all (\<lambda>c. \<not> isLineTerminator c) body"
  by (simp add: matchesMeCardPattern_def)

lemma splitUnescaped_not_Nil: "splitUnescaped c s \<noteq> []"
  by (induction c s rule: splitUnescaped.induct) (auto split: list.splits)

lemma splitUnescaped_plain:
  "x \<noteq> BS \<Longrightarrow> x \<noteq> c \<Longrightarrow>
   splitUnescaped c (x # s) = (x # hd (splitUnescaped c s)) # tl (splitUnescaped c s)"
  using splitUnescaped_not_Nil [of c s] by (cases s) (auto split: list.splits)

lemma splitUnescaped_pair:
  "splitUnescaped c (BS # y # s) = (BS # y # hd (splitUnescaped c s)) # tl (splitUnescaped c s)"
  using splitUnescaped_not_Nil [of c s] by (auto split: list.splits)

lemma splitUnescaped_sep:
  "c \<noteq> BS \<Longrightarrow> splitUnescaped c (c # s) = [] # splitUnescaped c s"
  by (cases s) auto

lemma noRaw_plain: "x \<noteq> BS \<Longrightarrow> noRaw c (x # s) = (x \<noteq> c \<and> noRaw c s)"
  by (cases s) auto

lemma splitUnescaped_closed: "noRaw c s \<Longrightarrow> splitUnescaped c s = [s]"
proof (induction c s rule: noRaw.induct)
  case (1 c)
  show ?case by simp
next
  case (2 c x)
  then show ?case by simp
next
  case (3 c x y s)
  show ?case
  proof (cases "x = BS")
    case True
    with 3 show ?thesis by (simp add: splitUnescaped_pair del: splitUnescaped.simps)
  next
    case False
    with 3 have "x \<noteq> c" "splitUnescaped c (y # s) = [y # s]" by simp_all
    then show ?thesis using False splitUnescaped_plain [of x c "y # s"] by simp
  qed
qed

lemma splitUnescaped_at_sep:
  "c \<noteq> BS \<Longrightarrow> noRaw c s \<Longrightarrow> splitUnescaped c (s @ c # t) = s # splitUnescaped c t"
proof (induction c s rule: noRaw.induct)
  case (1 c)
  then show ?case by (simp add: splitUnescaped_sep del: splitUnescaped.simps)
next
  case (2 c x)
  then have "splitUnescaped c (x # c # t) = (x # hd (splitUnescaped c (c # t))) # tl (splitUnescaped c (c # t))"
    by (intro splitUnescaped_plain) simp_all
  with 2 show ?case by (simp add: splitUnescaped_sep del: splitUnescaped.simps)
next
  case (3 c x y s)
  show ?case
  proof (cases "x = BS")
    case True
    with 3 have "splitUnescaped c (s @ c # t) = s # splitUnescaped c t" by simp
    with True show ?thesis by (simp add: splitUnescaped_pair del: splitUnescaped.simps)
  next
    case False
    with 3 have xc: "x \<noteq> c" and ih: "splitUnescaped c ((y # s) @ c # t) = (y # s) # splitUnescaped c t"
      by simp_all
    have "splitUnescaped c (x # (y # s) @ c # t)
        = (x # hd (splitUnescaped c ((y # s) @ c # t))) # tl (splitUnescaped c ((y # s) @ c # t))"
      using False xc by (rule splitUnescaped_plain)
    then show ?thesis unfolding ih by simp
  qed
qed

lemma noRaw_append: "noRaw c a \<Longrightarrow> noRaw c (a @ b) = noRaw c b"
proof (induction c a rule: noRaw.induct)
  case (1 c)
  show ?case by simp
next
  case (2 c x)
  then have "x \<noteq> BS" "x \<noteq> c" by simp_all
  then show ?case using noRaw_plain [of x c b] by simp
next
  case (3 c x y s)
  show ?case
  proof (cases "x = BS")
    case True
    with 3 show ?thesis by simp
  next
    case False
    with 3 have "x \<noteq> c" "noRaw c ((y # s) @ b) = noRaw c b" by simp_all
    with False show ?thesis using noRaw_plain [of x c "(y # s) @ b"] by simp
  qed
qed

lemma noRaw_escape:
  "c \<in> set [CHR '':'', CHR '';'', CHR '',''] \<Longrightarrow> noRaw c (escapeMeCardValue v)"
proof (induction v)
  case Nil
  show ?case by (simp add: escapeMeCardValue_Nil)
next
  case (Cons x v)
  show ?case
  proof (cases "x \<in> set [BS, CHR '':'', CHR '';'', CHR '','', DQ]")
    case True
    then have "meCardEscapeChar x = [BS, x]" by (simp add: meCardEscapeChar_def)
    then show ?thesis using Cons by (simp add: escapeMeCardValue_Cons)
  next
    case False
    then have e: "meCardEscapeChar x = [x]" by (simp add: meCardEscapeChar_def)
    from False Cons.prems have "x \<noteq> BS" "x \<noteq> c" by auto
    then have "noRaw c (x # escapeMeCardValue v) = noRaw c (escapeMeCardValue v)"
      by (simp add: noRaw_plain del: noRaw.simps)
    then show ?thesis using Cons e by (simp add: escapeMeCardValue_Cons)
  qed
qed

lemma meCardEntries_keys_closed:
  "kv \<in> set (meCardEntries d) \<Longrightarrow> noRaw CHR '';'' (fst kv) \<and> noRaw CHR '':'' (fst kv)"
  by (auto simp: meCardEntries_def split: if_splits)

lemma meCardField_closed:
  assumes "kv \<in> set (meCardEntries d)"
  shows "noRaw CHR '';'' (meCardField kv)"
proof -
  have "noRaw CHR '';'' (fst kv)" using assms meCardEntries_keys_closed by blast
  then have "noRaw CHR '';'' (meCardField kv) = noRaw CHR '';'' ('':'' @ escapeMeCardValue (snd kv))"
    unfolding meCardField_def by (rule noRaw_append)
  also have "\<dots> = noRaw CHR '';'' (escapeMeCardValue (snd kv))"
    by (simp add: noRaw_plain del: noRaw.simps)
  finally show ?thesis by (simp add: noRaw_escape)
qed

lemma meCardField_split:
  assumes "kv \<in> set (meCardEntries d)"
  shows "splitUnescaped CHR '':'' (meCardField kv) = [fst kv, escapeMeCardValue (snd kv)]"
proof -
  have k: "noRaw CHR '':'' (fst kv)" using assms meCardEntries_keys_closed by blast
  have "splitUnescaped CHR '':'' (fst kv @ CHR '':'' # escapeMeCardValue (snd kv))
      = fst kv # splitUnescaped CHR '':'' (escapeMeCardValue (snd kv))"
    using k by (intro splitUnescaped_at_sep) simp_all
  also have "splitUnescaped CHR '':'' (escapeMeCardValue (snd kv)) = [escapeMeCardValue (snd kv)]"
    by (intro splitUnescaped_closed noRaw_escape) simp
  finally show ?thesis by (simp add: meCardField_def)
qed

lemma splitUnescaped_join:
  "fs \<noteq> [] \<Longrightarrow> list_all (noRaw CHR '';'') fs \<Longrightarrow> splitUnescaped CHR '';'' (join '';'' fs) = fs"
proof (induction "'';''" fs rule: join.induct)
  case 1
  then show ?case by simp
next
  case (2 x)
  then show ?case by (simp add: splitUnescaped_closed)
next
  case (3 x y ys)
  then have "splitUnescaped CHR '';'' (x @ CHR '';'' # join '';'' (y # ys))
      = x # splitUnescaped CHR '';'' (join '';'' (y # ys))"
    by (intro splitUnescaped_at_sep) simp_all
  with 3 show ?case by simp
qed

lemma join_empty: "join sep (x # xs) = [] \<Longrightarrow> x = []"
  by (cases xs) simp_all

lemma meCardBody_encode:
  "meCardBody (encodeMeCard d) = join '';'' (map meCardField (meCardEntries d))"
  by (simp add: meCardBody_def encodeMeCard_def)

lemma outputFields_encode:
  "outputFields (encodeMeCard d) = map meCardField (meCardEntries d)"
proof (cases "meCardEntries d")
  case Nil
  then show ?thesis by (simp add: outputFields_def meCardBody_encode)
next
  case (Cons kv kvs)
  have ne: "join '';'' (map meCardField (meCardEntries d)) \<noteq> []"
  proof
    assume "join '';'' (map meCardField (meCardEntries d)) = []"
    then have "meCardField kv = []" unfolding Cons by (simp add: join_empty)
    then show False by (simp add: meCardField_def)
  qed
  have "list_all (noRaw CHR '';'') (map meCardField (meCardEntries d))"
    by (simp add: list_all_iff meCardField_closed)
  then have "splitUnescaped CHR '';'' (join '';'' (map meCardField (meCardEntries d)))
      = map meCardField (meCardEntries d)"
    using Cons by (intro splitUnescaped_join) simp_all
  then show ?thesis using ne by (simp add: outputFields_def meCardBody_encode)
qed

lemma decodeMeCard_encode: "decodeMeCard (encodeMeCard d) = meCardEntries d"
proof -
  have "(fieldKey (meCardField kv), unescapeMeCardValue (fieldValue (meCardField kv))) = kv"
    if "kv \<in> set (meCardEntries d)" for kv
    using meCardField_split [OF that]
    by (simp add: fieldKey_def fieldValue_def unescape_escape)
  then have "map (\<lambda>kv. (fieldKey (meCardField kv), unescapeMeCardValue (fieldValue (meCardField kv))))
      (meCardEntries d) = meCardEntries d"
    by (simp add: map_idI)
  then show ?thesis by (simp add: decodeMeCard_def outputFields_encode comp_def)
qed

lemma outputFields_rawFree:
  "list_all (\<lambda>f. rawFree (fieldValue f)) (outputFields (encodeMeCard d))"
proof -
  have "rawFree (fieldValue (meCardField kv))" if "kv \<in> set (meCardEntries d)" for kv
    using meCardField_split [OF that] by (simp add: fieldValue_def rawFree_escape)
  then show ?thesis by (simp add: outputFields_encode list_all_iff)
qed

text \<open>
  The reader tells an escaped value from an unescaped one: a name \<^verbatim>\<open>a;TEL:666\<close> copied as it
  is would read back as two fields, and as the encoder writes it, it reads back as one.
\<close>

lemma decodeMeCard_raw_example:
  "decodeMeCard ''MECARD:N:a;TEL:666;;'' = [(''N'', ''a''), (''TEL'', ''666'')] \<and>
   decodeMeCard (''MECARD:N:a'' @ [BS] @ '';TEL'' @ [BS] @ '':666;;'') = [(''N'', ''a;TEL:666'')]"
  by (simp add: decodeMeCard_def outputFields_def meCardBody_def fieldKey_def fieldValue_def)

text \<open>
  Claim C5, as the code has it. For every MeCard record the output is \<^verbatim>\<open>MECARD:\<close>, a body and
  \<^verbatim>\<open>;;\<close>; it matches \<^verbatim>\<open>^MECARD:.*;;$\<close> exactly when no emitted field value holds a line
  terminator. Read back from the output, the fields between the unescaped semicolons are
  the fields the encoder emitted, one for each present field of the record; the value of
  each, after its first unescaped colon, has no raw semicolon, colon, comma or backslash;
  and decoding the output gives the present fields of the record with their values, so no
  character of a value is taken for a separator. The escaping leaves no raw special
  character in any value, and reading an escaped value back gives the value.
\<close>

theorem encodeMeCard_format:
  "(\<exists>body. encodeMeCard d = ''MECARD:'' @ body @ '';;'') \<and>
   matchesMeCardPattern (encodeMeCard d)
     = list_all (\<lambda>kv. list_all (\<lambda>c. \<not> isLineTerminator c) (snd kv)) (meCardEntries d) \<and>
   outputFields (encodeMeCard d) = map meCardField (meCardEntries d) \<and>
   list_all (\<lambda>f. rawFree (fieldValue f)) (outputFields (encodeMeCard d)) \<and>
   decodeMeCard (encodeMeCard d) = meCardEntries d \<and>
   list_all (\<lambda>kv. rawFree (escapeMeCardValue (snd kv))) (meCardEntries d) \<and>
   rawFree (escapeMeCardValue v) \<and>
   unescapeMeCardValue (escapeMeCardValue v) = v"
proof -
  have a: "\<exists>body. encodeMeCard d = ''MECARD:'' @ body @ '';;''"
    unfolding encodeMeCard_def by blast
  have "matchesMeCardPattern (encodeMeCard d)
      = list_all (\<lambda>c. \<not> isLineTerminator c) (join '';'' (map meCardField (meCardEntries d)))"
    unfolding encodeMeCard_def by (rule matches_wrap)
  also have "\<dots> = list_all (list_all (\<lambda>c. \<not> isLineTerminator c)) (map meCardField (meCardEntries d))"
    by (rule list_all_join) (simp add: isLineTerminator_def)
  also have "\<dots> = list_all (\<lambda>kv. list_all (\<lambda>c. \<not> isLineTerminator c) (snd kv)) (meCardEntries d)"
    using meCardField_no_LT [of d] by (simp add: list_all_iff)
  finally have b: "matchesMeCardPattern (encodeMeCard d)
      = list_all (\<lambda>kv. list_all (\<lambda>c. \<not> isLineTerminator c) (snd kv)) (meCardEntries d)" .
  have c: "list_all (\<lambda>kv. rawFree (escapeMeCardValue (snd kv))) (meCardEntries d)"
    by (simp add: list_all_iff rawFree_escape)
  show ?thesis
    using a b c rawFree_escape unescape_escape outputFields_encode outputFields_rawFree
      decodeMeCard_encode
    by blast
qed

text \<open>
  Claim C5 as stated fails on a note of two lines: the line feed is copied to the output,
  and the dot of the pattern does not match it.
\<close>

theorem encodeMeCard_newline_counterexample:
  "\<not> matchesMeCardPattern
       (encodeMeCard \<lparr>name = ''A'', phone = None, email = None, url = None, address = None,
                      mnote = Some [CHR ''a'', LF, CHR ''b'']\<rparr>)"
  by (simp add: matchesMeCardPattern_def encodeMeCard_def meCardEntries_def meCardField_def
      escapeMeCardValue_def truthy_def isLineTerminator_def)


section \<open>Properties of the vCard encoder\<close>

lemma join_snoc: "xs \<noteq> [] \<Longrightarrow> join sep (xs @ [z]) = join sep xs @ sep @ z"
  by (induction sep xs rule: join.induct) simp_all

text \<open>
  The header and the footer are as the format has them, for every record: the output
  starts with \<^verbatim>\<open>BEGIN:VCARD\<close>, CR LF, \<^verbatim>\<open>VERSION:3.0\<close>, CR LF and ends with \<^verbatim>\<open>END:VCARD\<close>.
\<close>

lemma encodeVCard_header_footer:
  "(\<exists>rest. encodeVCard d = ''BEGIN:VCARD'' @ [CR, LF] @ ''VERSION:3.0'' @ [CR, LF] @ rest) \<and>
   (\<exists>front. encodeVCard d = front @ ''END:VCARD'')"
proof -
  obtain mid where m: "vCardLines d
      = (''BEGIN:VCARD'' # ''VERSION:3.0'' # (''FN:'' @ escapeVCardValue (fullName d)) # mid) @ [''END:VCARD'']"
    by (simp add: vCardLines_def)
  have "\<exists>front. encodeVCard d = front @ ''END:VCARD''"
    unfolding encodeVCard_def m by (subst join_snoc) (simp, metis append.assoc)
  moreover have "\<exists>rest. encodeVCard d = ''BEGIN:VCARD'' @ [CR, LF] @ ''VERSION:3.0'' @ [CR, LF] @ rest"
    unfolding encodeVCard_def vCardLines_def by simp
  ultimately show ?thesis by blast
qed

lemma escapeVCardValue_Nil: "escapeVCardValue [] = []"
  by (simp add: escapeVCardValue_def)

lemma escapeVCardValue_Cons: "escapeVCardValue (c # v) = vCardEscapeChar c @ escapeVCardValue v"
  by (simp add: escapeVCardValue_def vCardEscapeChar_def replaceAll_append)

lemma structuredFields_not_Nil: "structuredFields s \<noteq> []"
  by (induction s rule: structuredFields.induct) (auto split: list.splits)

lemma structuredFields_plain:
  "c \<noteq> BS \<Longrightarrow> c \<noteq> CHR '';'' \<Longrightarrow>
   length (structuredFields (c # s)) = length (structuredFields s)"
  using structuredFields_not_Nil [of s] by (cases s) (auto split: list.splits)

lemma structuredFields_pair:
  "length (structuredFields (BS # d # s)) = length (structuredFields s)"
  using structuredFields_not_Nil [of s] by (auto split: list.splits)

lemma structuredFields_escaped:
  "length (structuredFields (escapeVCardValue v)) = 1"
proof (induction v)
  case Nil
  show ?case by (simp add: escapeVCardValue_Nil)
next
  case (Cons c v)
  show ?case
  proof (cases "c = LF \<or> c \<in> set [BS, CHR '','', CHR '';'']")
    case True
    then obtain e where "vCardEscapeChar c = [BS, e]" by (auto simp: vCardEscapeChar_def)
    then show ?thesis using Cons structuredFields_pair by (simp add: escapeVCardValue_Cons)
  next
    case False
    then have e: "vCardEscapeChar c = [c]" and n: "c \<noteq> BS" "c \<noteq> CHR '';''"
      by (auto simp: vCardEscapeChar_def)
    have "length (structuredFields (c # escapeVCardValue v))
        = length (structuredFields (escapeVCardValue v))"
      using n by (rule structuredFields_plain)
    then show ?thesis using e Cons by (simp add: escapeVCardValue_Cons)
  qed
qed

lemma name_line_one_field:
  "length (structuredFields (''N:'' @ escapeVCardValue v)) = 1"
proof -
  have "length (structuredFields (CHR ''N'' # CHR '':'' # escapeVCardValue v))
      = length (structuredFields (CHR '':'' # escapeVCardValue v))"
    by (rule structuredFields_plain) simp_all
  also have "\<dots> = length (structuredFields (escapeVCardValue v))"
    by (rule structuredFields_plain) simp_all
  finally show ?thesis using structuredFields_escaped [of v] by simp
qed

text \<open>
  Claim C3 at the record of Jo;hn Doe. \<^verbatim>\<open>encodeVCard\<close> joins the five name parts with
  semicolons and escapes the joined text, so the separators are escaped with the content:
  the one \<^verbatim>\<open>N:\<close> line splits at its semicolons into six pieces and holds a single
  structured field, not five. For John Doe the four separators are escaped as well, and for
  every record the \<^verbatim>\<open>N:\<close> line is a single structured field.
\<close>

theorem encodeVCard_name_line_escaped:
  "nameLines (encodeVCard (namesOnly ''Jo;hn'' ''Doe''))
     = [''N:Doe'' @ [BS] @ '';Jo'' @ [BS] @ '';hn'' @ [BS] @ '';'' @ [BS] @ '';'' @ [BS] @ '';''] \<and>
   map (\<lambda>l. length (splitSemicolon l)) (nameLines (encodeVCard (namesOnly ''Jo;hn'' ''Doe''))) = [6] \<and>
   map (\<lambda>l. length (structuredFields l)) (nameLines (encodeVCard (namesOnly ''Jo;hn'' ''Doe''))) = [1] \<and>
   nameLines (encodeVCard (namesOnly ''John'' ''Doe''))
     = [''N:Doe'' @ [BS] @ '';John'' @ [BS] @ '';'' @ [BS] @ '';'' @ [BS] @ '';''] \<and>
   length (structuredFields (''N:'' @ escapeVCardValue (structuredName d))) = 1"
proof -
  have a: "nameLines (encodeVCard (namesOnly ''Jo;hn'' ''Doe''))
     = [''N:Doe'' @ [BS] @ '';Jo'' @ [BS] @ '';hn'' @ [BS] @ '';'' @ [BS] @ '';'' @ [BS] @ '';'']"
    by (simp add: namesOnly_def nameLines_def encodeVCard_def vCardLines_def optLine_def truthy_def
      socialLines_def fullName_def structuredName_def escapeVCardValue_def orEmpty_def)
  have b: "nameLines (encodeVCard (namesOnly ''John'' ''Doe''))
     = [''N:Doe'' @ [BS] @ '';John'' @ [BS] @ '';'' @ [BS] @ '';'' @ [BS] @ '';'']"
    by (simp add: namesOnly_def nameLines_def encodeVCard_def vCardLines_def optLine_def truthy_def
      socialLines_def fullName_def structuredName_def escapeVCardValue_def orEmpty_def)
  show ?thesis unfolding a b using name_line_one_field by simp
qed


section \<open>Properties of the payload formatter and the validator\<close>

text \<open>
  Claim C4, as the code has it. On a record whose discriminant is none of the eight known
  ones, \<^verbatim>\<open>formatQRData\<close> ends by throwing an \<^verbatim>\<open>Error\<close> whose message names the
  discriminant: it returns no value, tagged or not. \<^verbatim>\<open>generateQRCode\<close>, which calls it
  outside any \<^verbatim>\<open>try\<close>, ends with the same exception, so the failure reaches the caller.
\<close>

theorem formatQRData_unsupported_throws:
  "typeOf d \<notin> set knownTypes \<Longrightarrow>
     formatQRData ns d = Throw (''Unsupported QR type: '' @ typeOf d) \<and>
     \<not> isNormal (formatQRData ns d) \<and>
     generateQRCode ns createQRCodeStyling d = Throw (''Unsupported QR type: '' @ typeOf d)"
  by (cases d) (simp_all add: knownTypes_def generateQRCode_def)

theorem formatQRData_unsupported_throws_witness:
  "typeOf (OtherData ''wifi'') \<notin> set knownTypes \<and>
   formatQRData integerText (OtherData ''wifi'') = Throw ''Unsupported QR type: wifi'' \<and>
   \<not> isNormal (formatQRData integerText (OtherData ''wifi'')) \<and>
   generateQRCode integerText Normal (OtherData ''wifi'') = Throw ''Unsupported QR type: wifi''"
proof -
  have h: "typeOf (OtherData ''wifi'') \<notin> set knownTypes" by (simp add: knownTypes_def)
  show ?thesis
    using h formatQRData_unsupported_throws [OF h, of integerText Normal] by simp
qed

text \<open>
  Claim C4 as stated fails: on the discriminant \<^verbatim>\<open>wifi\<close> the formatter does not return, it
  throws.
\<close>

theorem formatQRData_returns_error_counterexample:
  "\<not> isNormal (formatQRData integerText (OtherData ''wifi''))"
  by simp

text \<open>
  Claim C10. On a record whose discriminant is none of the eight known ones,
  \<^verbatim>\<open>validateQRData\<close> answers that the record is valid, with no error, and
  \<^verbatim>\<open>formatQRData\<close> throws on the same record: the validation does not keep such a record
  from the formatter's last branch.
\<close>

theorem validateQRData_unsupported_valid:
  "typeOf d \<notin> set knownTypes \<Longrightarrow>
     validateQRData parsesAsURL d = \<lparr>valid = True, error = None\<rparr> \<and>
     formatQRData ns d = Throw (''Unsupported QR type: '' @ typeOf d)"
  by (cases d) (simp_all add: knownTypes_def validResult_def)

theorem validateQRData_unsupported_valid_witness:
  "typeOf (OtherData ''wifi'') \<notin> set knownTypes \<and>
   validateQRData (\<lambda>u. False) (OtherData ''wifi'') = \<lparr>valid = True, error = None\<rparr> \<and>
   formatQRData integerText (OtherData ''wifi'') = Throw ''Unsupported QR type: wifi''"
proof -
  have h: "typeOf (OtherData ''wifi'') \<notin> set knownTypes" by (simp add: knownTypes_def)
  show ?thesis
    using h validateQRData_unsupported_valid [OF h, of "\<lambda>u. False" integerText] by simp
qed


section \<open>Properties of the history store\<close>

subsection \<open>Reading and writing the slot\<close>

lemma saveSchema_Normal:
  "saveSchema schema st = Normal st' \<Longrightarrow> st' = st\<lparr>slot := Doc schema\<rparr> \<and> available st"
  by (auto simp: saveSchema_def isStorageAvailable_def split: if_splits option.splits)

lemma loadSchema_after_save:
  "saveSchema schema st = Normal st' \<Longrightarrow> version schema = STORAGE_VERSION \<Longrightarrow> loadSchema st' = schema"
  by (auto dest!: saveSchema_Normal simp: loadSchema_def isStorageAvailable_def)

lemma loadSchema_version: "version (loadSchema st) = STORAGE_VERSION"
  by (simp add: loadSchema_def createEmptySchema_def migrateSchema_def split: slot.splits)

subsection \<open>Duplicates\<close>

text \<open>
  Claim C6. When an item of the store has the type of the new record and the same
  serialized data, \<^verbatim>\<open>saveToHistory\<close> returns \<^verbatim>\<open>null\<close> and leaves the storage as it was; the
  history, and so its length, is unchanged.
\<close>

theorem saveToHistory_duplicate:
  "\<exists>it \<in> set (getHistory st). itemType it = dataType d \<and> stringify (itemData it) = stringify d \<Longrightarrow>
   saveToHistory e d c st = (None, st) \<and> getHistory (snd (saveToHistory e d c st)) = getHistory st"
  by (simp add: saveToHistory_def isDuplicate_def getHistory_def list_ex_iff)

theorem saveToHistory_duplicate_witness:
  "(\<exists>it \<in> set (getHistory (storeOf [itemA])).
       itemType it = dataType (textRecord ''first'') \<and>
       stringify (itemData it) = stringify (textRecord ''first'')) \<and>
   saveToHistory sampleEnv (textRecord ''first'') plainColors (storeOf [itemA]) = (None, storeOf [itemA]) \<and>
   getHistory (snd (saveToHistory sampleEnv (textRecord ''first'') plainColors (storeOf [itemA])))
     = getHistory (storeOf [itemA])"
proof -
  have h: "\<exists>it \<in> set (getHistory (storeOf [itemA])).
       itemType it = dataType (textRecord ''first'') \<and>
       stringify (itemData it) = stringify (textRecord ''first'')"
    by (simp add: getHistory_def storeOf_def loadSchema_def isStorageAvailable_def
        STORAGE_VERSION_def itemA_def sampleItem_def dataType_def textRecord_def)
  show ?thesis
    using h saveToHistory_duplicate [OF h, of sampleEnv plainColors] by blast
qed

subsection \<open>Import\<close>

text \<open>
  Claim C9. A payload without a version, or whose \<^verbatim>\<open>items\<close> is not a list, is refused: the
  import returns false and the storage is the one before the call. So is a text that does
  not parse.
\<close>

theorem importHistoryFromJSON_malformed:
  "v = None \<or> its = None \<Longrightarrow>
   importHistoryFromJSON (Parsed v its) st = (False, st) \<and>
   importHistoryFromJSON ParseError st = (False, st)"
  by (auto simp: importHistoryFromJSON_def)

theorem importHistoryFromJSON_malformed_witness:
  "importHistoryFromJSON (Parsed None (Some [itemC])) (storeOf [itemA]) = (False, storeOf [itemA]) \<and>
   importHistoryFromJSON (Parsed (Some (JNumber ''1'')) None) (storeOf [itemA]) = (False, storeOf [itemA]) \<and>
   importHistoryFromJSON ParseError (storeOf [itemA]) = (False, storeOf [itemA])"
  using importHistoryFromJSON_malformed [of None "Some [itemC]" "storeOf [itemA]"]
    importHistoryFromJSON_malformed [of "Some (JNumber ''1'')" None "storeOf [itemA]"]
  by simp

lemma mergeExisting_char:
  "mergeExisting m es = m @ firstOfEachId (filter (\<lambda>e. itemId e \<notin> set (map itemId m)) es)"
proof (induction es arbitrary: m)
  case Nil
  show ?case by simp
next
  case (Cons e es)
  show ?case
  proof (cases "itemId e \<in> set (map itemId m)")
    case True
    then have "list_ex (\<lambda>item. itemId item = itemId e) m" by (auto simp: list_ex_iff)
    then show ?thesis using Cons [of m] True by simp
  next
    case False
    then have n: "\<not> list_ex (\<lambda>item. itemId item = itemId e) m"
      unfolding list_ex_iff set_map by (metis imageI)
    have "filter (\<lambda>x. itemId x \<notin> set (map itemId (m @ [e]))) es
        = filter (\<lambda>y. itemId y \<noteq> itemId e) (filter (\<lambda>x. itemId x \<notin> set (map itemId m)) es)"
      by (induction es) auto
    then show ?thesis using Cons [of "m @ [e]"] False n by simp
  qed
qed

lemma firstOfEachId_distinct: "distinct (map itemId xs) \<Longrightarrow> firstOfEachId xs = xs"
proof (induction xs)
  case Nil
  show ?case by simp
next
  case (Cons x xs)
  then have "itemId x \<notin> itemId ` set xs" by simp
  then have "filter (\<lambda>y. itemId y \<noteq> itemId x) xs = xs"
    unfolding filter_id_conv by (metis imageI)
  then show ?case using Cons by simp
qed

lemma sortNewestFirst_sorted: "sorted_wrt (\<lambda>a b. timestamp b \<le> timestamp a) (sortNewestFirst xs)"
proof -
  have "sorted (map (\<lambda>it. - timestamp it) (sortNewestFirst xs))"
    unfolding sortNewestFirst_def by (rule sorted_sort_key)
  then show ?thesis by (simp add: sorted_map)
qed

lemma sorted_wrt_take: "sorted_wrt P xs \<Longrightarrow> sorted_wrt P (take n xs)"
  by (metis append_take_drop_id sorted_wrt_append)

lemma sortNewestFirst_stable:
  "filter (\<lambda>it. timestamp it = t) (sortNewestFirst xs) = filter (\<lambda>it. timestamp it = t) xs"
proof -
  have "filter (\<lambda>it. - timestamp it = - t) (sort_key (\<lambda>it. - timestamp it) xs)
      = filter (\<lambda>it. - timestamp it = - t) xs"
    by (rule sort_key_stable)
  then show ?thesis by (simp add: sortNewestFirst_def)
qed

text \<open>
  Claim C8, as the code has it. After a successful import the slot holds a schema of the
  current version whose items are the first \<open>MAX_ITEMS\<close> of the merged list sorted newest
  first. The merged list is the imported items followed by the existing items whose id is
  neither among the imported ids nor on an earlier existing item; when the ids of the
  existing items are distinct these are all existing items whose id is not imported.
\<close>

theorem importHistoryFromJSON_merge:
  "importHistoryFromJSON (Parsed v (Some imported)) st = (True, st') \<Longrightarrow>
   slot st' = Doc \<lparr>version = STORAGE_VERSION,
                   items = take MAX_ITEMS (sortNewestFirst (mergeExisting imported (getHistory st)))\<rparr> \<and>
   getHistory st' = take MAX_ITEMS (sortNewestFirst (mergeExisting imported (getHistory st))) \<and>
   mergeExisting imported (getHistory st)
     = imported @ firstOfEachId (filter (\<lambda>e. itemId e \<notin> set (map itemId imported)) (getHistory st)) \<and>
   (if distinct (map itemId (getHistory st))
    then mergeExisting imported (getHistory st)
           = imported @ filter (\<lambda>e. itemId e \<notin> set (map itemId imported)) (getHistory st)
    else True) \<and>
   mset (sortNewestFirst (mergeExisting imported (getHistory st)))
     = mset (mergeExisting imported (getHistory st)) \<and>
   sorted_wrt (\<lambda>a b. timestamp b \<le> timestamp a) (getHistory st') \<and>
   length (getHistory st') \<le> MAX_ITEMS"
proof -
  assume a: "importHistoryFromJSON (Parsed v (Some imported)) st = (True, st')"
  let ?new = "\<lparr>version = STORAGE_VERSION,
                items = take MAX_ITEMS (sortNewestFirst (mergeExisting imported (getHistory st)))\<rparr>"
  from a have s: "saveSchema ?new st = Normal st'"
    by (auto simp: importHistoryFromJSON_def getHistory_def Let_def
        split: if_splits completion.splits)
  then have 1: "slot st' = Doc ?new" by (auto dest: saveSchema_Normal)
  from s have "loadSchema st' = ?new" by (rule loadSchema_after_save) simp
  then have 2: "getHistory st' = take MAX_ITEMS (sortNewestFirst (mergeExisting imported (getHistory st)))"
    by (simp add: getHistory_def)
  have 3: "mergeExisting imported (getHistory st)
     = imported @ firstOfEachId (filter (\<lambda>e. itemId e \<notin> set (map itemId imported)) (getHistory st))"
    by (rule mergeExisting_char)
  have 4: "mergeExisting imported (getHistory st)
           = imported @ filter (\<lambda>e. itemId e \<notin> set (map itemId imported)) (getHistory st)"
    if "distinct (map itemId (getHistory st))"
  proof -
    from that have "distinct (map itemId (filter (\<lambda>e. itemId e \<notin> set (map itemId imported)) (getHistory st)))"
      by (rule distinct_map_filter)
    then show ?thesis unfolding 3 by (simp only: firstOfEachId_distinct)
  qed
  have 5: "mset (sortNewestFirst (mergeExisting imported (getHistory st)))
     = mset (mergeExisting imported (getHistory st))"
    by (simp add: sortNewestFirst_def)
  have 6: "sorted_wrt (\<lambda>a b. timestamp b \<le> timestamp a) (getHistory st')"
    unfolding 2 by (rule sorted_wrt_take) (rule sortNewestFirst_sorted)
  have 7: "length (getHistory st') \<le> MAX_ITEMS" unfolding 2 by simp
  show ?thesis using 1 2 3 4 5 6 7 by simp
qed

lemma import_sample:
  "importHistoryFromJSON (Parsed (Some (JNumber ''1'')) (Some [itemB, itemC])) (storeOf [itemA])
     = (True, storeOf [itemC, itemB])"
  by (simp add: importHistoryFromJSON_def storeOf_def loadSchema_def isStorageAvailable_def
      saveSchema_def sortNewestFirst_def MAX_ITEMS_def STORAGE_VERSION_def
      itemA_def itemB_def itemC_def sampleItem_def)

theorem importHistoryFromJSON_merge_witness:
  "importHistoryFromJSON (Parsed (Some (JNumber ''1'')) (Some [itemB, itemC])) (storeOf [itemA])
     = (True, storeOf [itemC, itemB]) \<and>
   getHistory (storeOf [itemC, itemB])
     = take MAX_ITEMS (sortNewestFirst (mergeExisting [itemB, itemC] (getHistory (storeOf [itemA])))) \<and>
   mergeExisting [itemB, itemC] (getHistory (storeOf [itemA])) = [itemB, itemC] \<and>
   getHistory (storeOf [itemC, itemB]) = [itemC, itemB]"
proof -
  have g: "getHistory (storeOf [itemC, itemB]) = [itemC, itemB]"
    by (simp add: getHistory_def storeOf_def loadSchema_def isStorageAvailable_def STORAGE_VERSION_def)
  have m: "mergeExisting [itemB, itemC] (getHistory (storeOf [itemA])) = [itemB, itemC]"
    by (simp add: getHistory_def storeOf_def loadSchema_def isStorageAvailable_def STORAGE_VERSION_def
        itemA_def itemB_def itemC_def sampleItem_def)
  show ?thesis
    using import_sample importHistoryFromJSON_merge [OF import_sample] g m by simp
qed

lemma import1: "importHistoryFromJSON (Parsed (Some (JNumber ''1'')) (Some [itemA, itemB])) emptyStorage
  = (True, emptyStorage\<lparr>slot := Doc \<lparr>version = 1, items = [itemA, itemB]\<rparr>\<rparr>)"
  by (simp add: importHistoryFromJSON_def emptyStorage_def loadSchema_def isStorageAvailable_def
      createEmptySchema_def saveSchema_def sortNewestFirst_def MAX_ITEMS_def STORAGE_VERSION_def
      itemA_def itemB_def sampleItem_def)

text \<open>
  Claim C8 as stated fails when two existing items share an id. Importing two items of id
  \<^verbatim>\<open>x\<close> into a fresh store keeps both. A second import, of no items, keeps only the first of
  them: the id of the second is not among the imported ids and yet it is not appended.
\<close>

theorem importHistoryFromJSON_existing_duplicate_counterexample:
  "getHistory (snd (importHistoryFromJSON (Parsed (Some (JNumber ''1'')) (Some [itemA, itemB])) emptyStorage))
     = [itemA, itemB] \<and>
   fst (importHistoryFromJSON (Parsed (Some (JNumber ''1'')) (Some []))
         (snd (importHistoryFromJSON (Parsed (Some (JNumber ''1'')) (Some [itemA, itemB])) emptyStorage)))
     = True \<and>
   getHistory (snd (importHistoryFromJSON (Parsed (Some (JNumber ''1'')) (Some []))
         (snd (importHistoryFromJSON (Parsed (Some (JNumber ''1'')) (Some [itemA, itemB])) emptyStorage))))
     = [itemA] \<and>
   itemB \<noteq> itemA"
  unfolding import1
  by (simp add: importHistoryFromJSON_def emptyStorage_def loadSchema_def isStorageAvailable_def
      createEmptySchema_def saveSchema_def sortNewestFirst_def MAX_ITEMS_def STORAGE_VERSION_def
      itemA_def itemB_def sampleItem_def getHistory_def)

subsection \<open>Size enforcement\<close>

declare enforceStorageLimit.simps [simp del]

lemma enforceStorageLimit_stop:
  "\<not> (MAX_STORAGE_SIZE < schemaSize s \<and> 1 < length (items s)) \<Longrightarrow> enforceStorageLimit s = s"
  by (subst enforceStorageLimit.simps) auto

lemma enforceStorageLimit_pop:
  "MAX_STORAGE_SIZE < schemaSize s \<Longrightarrow> 1 < length (items s) \<Longrightarrow>
   enforceStorageLimit s = enforceStorageLimit (s\<lparr>items := butlast (items s)\<rparr>)"
  by (subst enforceStorageLimit.simps) auto

lemma enforceStorageLimit_version: "version (enforceStorageLimit s) = version s"
proof (induction s rule: enforceStorageLimit.induct)
  case (1 schema)
  then show ?case by (subst enforceStorageLimit.simps) simp
qed

lemma enforceStorageLimit_prefix:
  "\<exists>k. items (enforceStorageLimit s) = take k (items s) \<and> (items s \<noteq> [] \<longrightarrow> 0 < k)"
proof (induction s rule: enforceStorageLimit.induct)
  case (1 schema)
  show ?case
  proof (cases "MAX_STORAGE_SIZE < schemaSize schema \<and> 1 < length (items schema)")
    case True
    with 1 obtain k where k: "items (enforceStorageLimit (schema\<lparr>items := butlast (items schema)\<rparr>))
        = take k (butlast (items schema))" "butlast (items schema) \<noteq> [] \<longrightarrow> 0 < k"
      by auto
    from True have ne: "butlast (items schema) \<noteq> []"
      by (cases "items schema" rule: rev_cases) auto
    have "take k (butlast (items schema)) = take (min k (length (items schema) - 1)) (items schema)"
      by (simp add: butlast_conv_take min.commute)
    moreover have "0 < min k (length (items schema) - 1)" using k ne True by simp
    moreover have "enforceStorageLimit schema
        = enforceStorageLimit (schema\<lparr>items := butlast (items schema)\<rparr>)"
      using True by (simp add: enforceStorageLimit_pop)
    ultimately show ?thesis using k by auto
  next
    case False
    then have "enforceStorageLimit schema = schema" by (rule enforceStorageLimit_stop)
    then have "items (enforceStorageLimit schema) = take (length (items schema)) (items schema)" by simp
    moreover have "items schema \<noteq> [] \<longrightarrow> 0 < length (items schema)" by simp
    ultimately show ?thesis by blast
  qed
qed

lemma enforceStorageLimit_bound:
  "schemaSize (enforceStorageLimit s) \<le> MAX_STORAGE_SIZE \<or> length (items (enforceStorageLimit s)) \<le> 1"
proof (induction s rule: enforceStorageLimit.induct)
  case (1 schema)
  show ?case
  proof (cases "MAX_STORAGE_SIZE < schemaSize schema \<and> 1 < length (items schema)")
    case True
    then have "enforceStorageLimit schema
        = enforceStorageLimit (schema\<lparr>items := butlast (items schema)\<rparr>)"
      by (simp add: enforceStorageLimit_pop)
    with 1 True show ?thesis by simp
  next
    case False
    then have "enforceStorageLimit schema = schema" by (rule enforceStorageLimit_stop)
    with False show ?thesis by auto
  qed
qed

text \<open>
  Claim C1, as the code has it. After an insert the store holds the new item followed by
  a prefix of the old items (only tail items are evicted), and either the serialized
  schema has at most \<open>MAX_STORAGE_SIZE\<close> bytes or the new item is the only one left: the
  loop of \<^verbatim>\<open>enforceStorageLimit\<close> stops at one item.
\<close>

theorem saveToHistory_size:
  "saveToHistory e d c st = (Some it, st') \<Longrightarrow>
   it = newHistoryItem e d c \<and>
   (\<exists>k. 0 < k \<and> getHistory st' = take k (it # getHistory st)) \<and>
   (getStorageSize st' \<le> MAX_STORAGE_SIZE \<or> getHistory st' = [it])"
proof -
  assume a: "saveToHistory e d c st = (Some it, st')"
  let ?lim = "if MAX_ITEMS < length (newHistoryItem e d c # items (loadSchema st))
              then take MAX_ITEMS (newHistoryItem e d c # items (loadSchema st))
              else newHistoryItem e d c # items (loadSchema st)"
  let ?enf = "enforceStorageLimit ((loadSchema st)\<lparr>items := ?lim\<rparr>)"
  from a have it: "it = newHistoryItem e d c" and s: "saveSchema ?enf st = Normal st'"
    by (auto simp: saveToHistory_def Let_def split: if_splits completion.splits)
  have v: "version ?enf = STORAGE_VERSION"
    by (simp add: enforceStorageLimit_version loadSchema_version)
  from s v have l: "loadSchema st' = ?enf" by (rule loadSchema_after_save)
  have lim: "?lim = take MAX_ITEMS (it # getHistory st)" "?lim \<noteq> []"
    by (auto simp: it getHistory_def MAX_ITEMS_def)
  obtain k where k: "items ?enf = take k ?lim" "0 < k"
    using enforceStorageLimit_prefix [of "(loadSchema st)\<lparr>items := ?lim\<rparr>"] lim(2) by auto
  have p: "getHistory st' = take (min k MAX_ITEMS) (it # getHistory st)"
    using k(1) lim(1) l by (simp add: getHistory_def min.commute)
  have kk: "0 < min k MAX_ITEMS" using k(2) by (simp add: MAX_ITEMS_def)
  have b: "getStorageSize st' \<le> MAX_STORAGE_SIZE \<or> length (getHistory st') \<le> 1"
    using enforceStorageLimit_bound [of "(loadSchema st)\<lparr>items := ?lim\<rparr>"] l
    by (simp add: getStorageSize_def getHistory_def)
  have "getHistory st' = [it]" if "length (getHistory st') \<le> 1"
  proof -
    from p kk obtain r where "getHistory st' = it # r"
      by (cases "min k MAX_ITEMS") auto
    with that show ?thesis by simp
  qed
  with b have "getStorageSize st' \<le> MAX_STORAGE_SIZE \<or> getHistory st' = [it]" by blast
  with it p kk show ?thesis by blast
qed

lemma small_size:
  "schemaSize \<lparr>version = 1, items = [newHistoryItem sampleEnv (textRecord ''hello'') plainColors, itemA]\<rparr>
     \<le> MAX_STORAGE_SIZE"
  by (simp add: schemaSize_def stringifySchema_def stringifyItem_def newHistoryItem_def sampleEnv_def
      generateId_def textRecord_def plainColors_def itemA_def sampleItem_def jsonQuote_def
      jsonEscapeChar_def showInt_def byteLength_def MAX_STORAGE_SIZE_def dataType_def)

lemma save_small:
  "saveToHistory sampleEnv (textRecord ''hello'') plainColors (storeOf [itemA])
     = (Some (newHistoryItem sampleEnv (textRecord ''hello'') plainColors),
        storeOf [newHistoryItem sampleEnv (textRecord ''hello'') plainColors, itemA])"
proof -
  have d: "\<not> isDuplicate (textRecord ''hello'') [itemA]"
    by (simp add: isDuplicate_def itemA_def sampleItem_def textRecord_def dataType_def jsonQuote_def
        jsonEscapeChar_def)
  have e: "enforceStorageLimit \<lparr>version = 1,
             items = [newHistoryItem sampleEnv (textRecord ''hello'') plainColors, itemA]\<rparr>
        = \<lparr>version = 1, items = [newHistoryItem sampleEnv (textRecord ''hello'') plainColors, itemA]\<rparr>"
    using small_size by (intro enforceStorageLimit_stop) simp
  show ?thesis
    using d e
    by (simp add: saveToHistory_def storeOf_def loadSchema_def isStorageAvailable_def
        MAX_ITEMS_def saveSchema_def STORAGE_VERSION_def Let_def)
qed

theorem saveToHistory_size_witness:
  "saveToHistory sampleEnv (textRecord ''hello'') plainColors (storeOf [itemA])
     = (Some (newHistoryItem sampleEnv (textRecord ''hello'') plainColors),
        storeOf [newHistoryItem sampleEnv (textRecord ''hello'') plainColors, itemA]) \<and>
   getStorageSize (storeOf [newHistoryItem sampleEnv (textRecord ''hello'') plainColors, itemA])
     \<le> MAX_STORAGE_SIZE \<and>
   getHistory (storeOf [newHistoryItem sampleEnv (textRecord ''hello'') plainColors, itemA])
     = take 2 (newHistoryItem sampleEnv (textRecord ''hello'') plainColors # getHistory (storeOf [itemA]))"
proof -
  have g: "getHistory (storeOf xs) = xs" for xs
    by (simp add: getHistory_def storeOf_def loadSchema_def isStorageAvailable_def STORAGE_VERSION_def)
  have "getStorageSize (storeOf [newHistoryItem sampleEnv (textRecord ''hello'') plainColors, itemA])
       \<le> MAX_STORAGE_SIZE \<or>
     getHistory (storeOf [newHistoryItem sampleEnv (textRecord ''hello'') plainColors, itemA])
       = [newHistoryItem sampleEnv (textRecord ''hello'') plainColors]"
    using saveToHistory_size [OF save_small] by blast
  then show ?thesis using save_small g by simp
qed

lemma byteLength_append: "byteLength (a @ b) = byteLength a + byteLength b"
  by (simp add: byteLength_def)

lemma byteLength_Cons_ge: "byteLength s \<le> byteLength (c # s)"
  by (simp add: byteLength_def)

lemma byteLength_join_ge: "x \<in> set xs \<Longrightarrow> byteLength x \<le> byteLength (join sep xs)"
proof (induction sep xs rule: join.induct)
  case (1 sep)
  then show ?case by simp
next
  case (2 sep y)
  then show ?case by simp
next
  case (3 sep y z zs)
  then show ?case by (auto simp: byteLength_append)
qed

lemma byteLength_Cons:
  "byteLength (c # s) = (if (of_char c :: nat) < 128 then 1 else 2) + byteLength s"
  by (simp add: byteLength_def)

lemma schemaSize_item_le:
  "it \<in> set (items s) \<Longrightarrow> byteLength (stringifyItem it) \<le> schemaSize s"
proof -
  assume "it \<in> set (items s)"
  then have "byteLength (stringifyItem it) \<le> byteLength (join '','' (map stringifyItem (items s)))"
    by (intro byteLength_join_ge) simp
  then show ?thesis
    by (simp add: schemaSize_def stringifySchema_def byteLength_append byteLength_Cons)
qed

subsection \<open>Capacity\<close>

lemma saveSchema_isNormal:
  "isNormal (saveSchema sch st)
     = (available st \<and> (case capacity st of None \<Rightarrow> True | Some n \<Rightarrow> length (stringifySchema sch) \<le> n))"
  by (simp add: saveSchema_def isStorageAvailable_def split: option.splits)

lemma saveSchema_result:
  "isNormal (saveSchema sch st) \<Longrightarrow> saveSchema sch st = Normal (st\<lparr>slot := Doc sch\<rparr>)"
  by (auto simp: saveSchema_def isStorageAvailable_def split: option.splits if_splits)

lemma getHistory_written:
  "available st \<Longrightarrow> getHistory (st\<lparr>slot := Doc (schemaOf its)\<rparr>) = its"
  by (simp add: getHistory_def loadSchema_def isStorageAvailable_def schemaOf_def)

lemma loadSchema_schemaOf: "loadSchema st = schemaOf (getHistory st)"
  using loadSchema_version [of st] by (simp add: schemaOf_def getHistory_def)

lemma saveToHistory_unfold:
  "saveToHistory e d c st =
     (if isDuplicate d (getHistory st) then (None, st)
      else (case saveSchema (enforceStorageLimit
                    (schemaOf (take MAX_ITEMS (newHistoryItem e d c # getHistory st)))) st of
              Throw x \<Rightarrow> (None, st)
            | Normal st' \<Rightarrow> (Some (newHistoryItem e d c), st')))"
proof -
  have "(loadSchema st)\<lparr>items := xs\<rparr> = schemaOf xs" for xs
    using loadSchema_version [of st] by (simp add: schemaOf_def)
  then show ?thesis
    by (simp add: saveToHistory_def Let_def getHistory_def)
qed

lemma saveToHistory_environment:
  "available (snd (saveToHistory e d c st)) = available st \<and>
   capacity (snd (saveToHistory e d c st)) = capacity st"
  by (auto simp: saveToHistory_unfold split: completion.splits dest!: saveSchema_Normal)

lemma enforceStorageLimit_schemaOf:
  "\<exists>k. enforceStorageLimit (schemaOf its) = schemaOf (take k its) \<and> (its \<noteq> [] \<longrightarrow> 0 < k)"
proof -
  obtain k where "items (enforceStorageLimit (schemaOf its)) = take k (items (schemaOf its))"
    "items (schemaOf its) \<noteq> [] \<longrightarrow> 0 < k"
    using enforceStorageLimit_prefix by blast
  moreover have "version (enforceStorageLimit (schemaOf its)) = STORAGE_VERSION"
    by (simp add: enforceStorageLimit_version schemaOf_def)
  ultimately have "enforceStorageLimit (schemaOf its) = schemaOf (take k its) \<and> (its \<noteq> [] \<longrightarrow> 0 < k)"
    by (simp add: schemaOf_def)
  then show ?thesis by blast
qed

lemma saveToHistory_length:
  "length (getHistory st) \<le> MAX_ITEMS \<Longrightarrow> length (getHistory (snd (saveToHistory e d c st))) \<le> MAX_ITEMS"
proof -
  assume a: "length (getHistory st) \<le> MAX_ITEMS"
  obtain k where k: "enforceStorageLimit (schemaOf (take MAX_ITEMS (newHistoryItem e d c # getHistory st)))
      = schemaOf (take k (take MAX_ITEMS (newHistoryItem e d c # getHistory st)))"
    using enforceStorageLimit_schemaOf by blast
  show ?thesis
    using a unfolding saveToHistory_unfold k
    by (auto split: completion.splits dest!: saveSchema_Normal simp: getHistory_written)
qed

lemma deleteHistoryItem_length:
  "length (getHistory st) \<le> MAX_ITEMS \<Longrightarrow> length (getHistory (snd (deleteHistoryItem i st))) \<le> MAX_ITEMS"
proof -
  assume a: "length (getHistory st) \<le> MAX_ITEMS"
  have "length (filter (\<lambda>it. itemId it \<noteq> i) (getHistory st)) \<le> MAX_ITEMS"
    by (rule order_trans [OF length_filter_le a])
  moreover have "(loadSchema st)\<lparr>items := xs\<rparr> = schemaOf xs" for xs
    using loadSchema_version [of st] by (simp add: schemaOf_def)
  ultimately show ?thesis
    using a
    by (auto simp: deleteHistoryItem_def Let_def getHistory_written getHistory_def [of st, symmetric]
        split: completion.splits dest!: saveSchema_Normal)
qed

lemma clearHistory_length:
  "length (getHistory st) \<le> MAX_ITEMS \<Longrightarrow> length (getHistory (snd (clearHistory st))) \<le> MAX_ITEMS"
  using getHistory_written [of st "[]"]
  by (auto simp: clearHistory_def schemaOf_def split: completion.splits dest!: saveSchema_Normal)

lemma importHistoryFromJSON_length:
  assumes a: "length (getHistory st) \<le> MAX_ITEMS"
  shows "length (getHistory (snd (importHistoryFromJSON p st))) \<le> MAX_ITEMS"
proof (cases p)
  case ParseError
  then show ?thesis using a by (simp add: importHistoryFromJSON_def)
next
  case (Parsed v its)
  have "length (getHistory (st\<lparr>slot := Doc (schemaOf (take MAX_ITEMS xs))\<rparr>)) \<le> MAX_ITEMS"
    if "available st" for xs
    using that by (simp add: getHistory_written)
  then show ?thesis
    using a Parsed
    by (auto simp: importHistoryFromJSON_def Let_def schemaOf_def
        split: completion.splits dest!: saveSchema_Normal)
qed

lemma applyMutation_length:
  "length (getHistory st) \<le> MAX_ITEMS \<Longrightarrow> length (getHistory (applyMutation m st)) \<le> MAX_ITEMS"
  by (cases m)
     (simp_all add: saveToHistory_length deleteHistoryItem_length clearHistory_length
        importHistoryFromJSON_length)

lemma fold_applyMutation_length:
  "length (getHistory st) \<le> MAX_ITEMS \<Longrightarrow> length (getHistory (fold applyMutation ms st)) \<le> MAX_ITEMS"
  by (induction ms arbitrary: st) (simp_all add: applyMutation_length)

lemma saveAll_snoc:
  "saveAll (rs @ [r]) st = snd (saveToHistory (fst r) (fst (snd r)) (snd (snd r)) (saveAll rs st))"
  by (induction rs arbitrary: st) simp_all

lemma saveAll_environment:
  "available (saveAll rs st) = available st \<and> capacity (saveAll rs st) = capacity st"
  by (induction rs arbitrary: st) (simp_all add: saveToHistory_environment)

lemma take_Cons_take: "take n (x # take n xs) = take n (x # xs)"
  by (cases n) simp_all

lemma historyAfter_snoc: "historyAfter (rs @ [r]) = take MAX_ITEMS (itemOf r # historyAfter rs)"
  by (simp add: historyAfter_def take_Cons_take)

lemma not_duplicate_of_earlier:
  assumes "stringify d \<notin> set (map (\<lambda>r. stringify (fst (snd r))) rs)"
  shows "\<not> isDuplicate d (historyAfter rs)"
proof
  assume "isDuplicate d (historyAfter rs)"
  then obtain it where it: "it \<in> set (historyAfter rs)" "stringify (itemData it) = stringify d"
    by (auto simp: isDuplicate_def list_ex_iff)
  from it(1) have "it \<in> set (map itemOf rs)"
    unfolding historyAfter_def using set_take_subset [of MAX_ITEMS "rev (map itemOf rs)"] by auto
  then obtain r where "r \<in> set rs" "it = itemOf r" by auto
  then have "stringify (itemData it) \<in> set (map (\<lambda>r. stringify (fst (snd r))) rs)"
    by (auto simp: itemOf_def newHistoryItem_def)
  with it(2) assms show False by simp
qed

lemma saveToHistory_step:
  assumes n: "\<not> isDuplicate d (getHistory st)"
    and s: "schemaSize (schemaOf (take MAX_ITEMS (newHistoryItem e d c # getHistory st))) \<le> MAX_STORAGE_SIZE"
    and w: "isNormal (saveSchema (schemaOf (take MAX_ITEMS (newHistoryItem e d c # getHistory st))) st)"
  shows "getHistory (snd (saveToHistory e d c st)) = take MAX_ITEMS (newHistoryItem e d c # getHistory st)"
proof -
  let ?sch = "schemaOf (take MAX_ITEMS (newHistoryItem e d c # getHistory st))"
  from s have e: "enforceStorageLimit ?sch = ?sch" by (intro enforceStorageLimit_stop) simp
  from w have a: "available st" by (simp add: saveSchema_isNormal)
  show ?thesis
    unfolding saveToHistory_unfold e using n saveSchema_result [OF w] a
    by (simp add: getHistory_written)
qed

lemma saveAll_history:
  assumes "getHistory st = []"
    and "distinct (map (\<lambda>r. stringify (fst (snd r))) rs)"
    and "\<forall>k. 0 < k \<and> k \<le> length rs \<longrightarrow>
           schemaSize (schemaOf (historyAfter (take k rs))) \<le> MAX_STORAGE_SIZE \<and>
           isNormal (saveSchema (schemaOf (historyAfter (take k rs))) st)"
  shows "getHistory (saveAll rs st) = historyAfter rs"
  using assms
proof (induction rs rule: rev_induct)
  case Nil
  then show ?case by (simp add: historyAfter_def)
next
  case (snoc r rs)
  have d: "distinct (map (\<lambda>r. stringify (fst (snd r))) rs)"
    and nd: "stringify (fst (snd r)) \<notin> set (map (\<lambda>r. stringify (fst (snd r))) rs)"
    using snoc.prems(2) by auto
  have ok: "\<forall>k. 0 < k \<and> k \<le> length rs \<longrightarrow>
           schemaSize (schemaOf (historyAfter (take k rs))) \<le> MAX_STORAGE_SIZE \<and>
           isNormal (saveSchema (schemaOf (historyAfter (take k rs))) st)"
  proof (intro allI impI)
    fix k assume k: "0 < k \<and> k \<le> length rs"
    then have "0 < k \<and> k \<le> length (rs @ [r])" by simp
    with snoc.prems(3) have "schemaSize (schemaOf (historyAfter (take k (rs @ [r])))) \<le> MAX_STORAGE_SIZE \<and>
           isNormal (saveSchema (schemaOf (historyAfter (take k (rs @ [r])))) st)" by blast
    with k show "schemaSize (schemaOf (historyAfter (take k rs))) \<le> MAX_STORAGE_SIZE \<and>
           isNormal (saveSchema (schemaOf (historyAfter (take k rs))) st)" by simp
  qed
  have ih: "getHistory (saveAll rs st) = historyAfter rs"
    using snoc.IH [OF snoc.prems(1) d ok] .
  have last: "schemaSize (schemaOf (historyAfter (rs @ [r]))) \<le> MAX_STORAGE_SIZE \<and>
           isNormal (saveSchema (schemaOf (historyAfter (rs @ [r]))) st)"
    using snoc.prems(3) [rule_format, of "length (rs @ [r])"] by simp
  have w: "isNormal (saveSchema (schemaOf (historyAfter (rs @ [r]))) (saveAll rs st))"
    using last saveAll_environment [of rs st] by (simp add: saveSchema_isNormal)
  have "getHistory (snd (saveToHistory (fst r) (fst (snd r)) (snd (snd r)) (saveAll rs st)))
      = take MAX_ITEMS (newHistoryItem (fst r) (fst (snd r)) (snd (snd r)) # getHistory (saveAll rs st))"
  proof (rule saveToHistory_step)
    show "\<not> isDuplicate (fst (snd r)) (getHistory (saveAll rs st))"
      unfolding ih using nd by (rule not_duplicate_of_earlier)
    show "schemaSize (schemaOf (take MAX_ITEMS
        (newHistoryItem (fst r) (fst (snd r)) (snd (snd r)) # getHistory (saveAll rs st))))
      \<le> MAX_STORAGE_SIZE"
      using last unfolding ih historyAfter_snoc itemOf_def by simp
    show "isNormal (saveSchema (schemaOf (take MAX_ITEMS
        (newHistoryItem (fst r) (fst (snd r)) (snd (snd r)) # getHistory (saveAll rs st))))
      (saveAll rs st))"
      using w unfolding ih historyAfter_snoc itemOf_def by simp
  qed
  then show ?case
    unfolding saveAll_snoc ih historyAfter_snoc itemOf_def by simp
qed

lemma historyAfter_51:
  "length rs = 51 \<Longrightarrow> historyAfter rs = rev (map itemOf (tl rs)) \<and> length (historyAfter rs) = 50"
proof -
  assume l: "length rs = 51"
  then obtain r rest where rs: "rs = r # rest" and lr: "length rest = 50"
    by (cases rs) auto
  show ?thesis using lr by (simp add: rs historyAfter_def MAX_ITEMS_def)
qed

lemma byteLength_le: "byteLength s \<le> 2 * length s"
  by (induction s) (simp_all add: byteLength_def)

lemma byteLength_jsonEscapeChar: "byteLength (jsonEscapeChar c) \<le> 12"
proof -
  have "length (jsonEscapeChar c) \<le> 6" by (simp add: jsonEscapeChar_def Let_def)
  then show ?thesis using byteLength_le [of "jsonEscapeChar c"] by simp
qed

lemma byteLength_jsonQuote: "byteLength (jsonQuote s) \<le> 2 + 12 * length s"
proof -
  have "byteLength (concat (map jsonEscapeChar s)) \<le> 12 * length s"
  proof (induction s)
    case Nil
    show ?case by (simp add: byteLength_def)
  next
    case (Cons c s)
    then show ?case using byteLength_jsonEscapeChar [of c] by (simp add: byteLength_append)
  qed
  then show ?thesis by (simp add: jsonQuote_def byteLength_append byteLength_Cons byteLength_def)
qed

lemma byteLength_join_le:
  "byteLength (join '','' xs) \<le> sum_list (map (\<lambda>x. Suc (byteLength x)) xs)"
  by (induction "'',''" xs rule: join.induct) (simp_all add: byteLength_append byteLength_Cons byteLength_def)

lemma sum_list_bound: "\<forall>x \<in> set xs. f x \<le> (b::nat) \<Longrightarrow> sum_list (map f xs) \<le> length xs * b"
  by (induction xs) auto

lemma schemaSize_bound:
  assumes "\<forall>it \<in> set its. byteLength (stringifyItem it) \<le> 4000" and "length its \<le> 50"
  shows "schemaSize (schemaOf its) \<le> MAX_STORAGE_SIZE"
proof -
  have "\<forall>x \<in> set (map stringifyItem its). Suc (byteLength x) \<le> 4001" using assms(1) by auto
  then have "sum_list (map (\<lambda>x. Suc (byteLength x)) (map stringifyItem its)) \<le> length (map stringifyItem its) * 4001"
    by (rule sum_list_bound)
  then have "byteLength (join '','' (map stringifyItem its)) \<le> 50 * 4001"
    using byteLength_join_le [of "map stringifyItem its"] assms(2) by simp
  moreover have "schemaSize (schemaOf its) = 24 + byteLength (join '','' (map stringifyItem its))"
    by (simp add: schemaSize_def stringifySchema_def schemaOf_def STORAGE_VERSION_def showInt_def
        jsonQuote_def jsonEscapeChar_def byteLength_append byteLength_Cons)
       (simp add: byteLength_def)
  ultimately show ?thesis by (simp add: MAX_STORAGE_SIZE_def)
qed

lemma byteLength_Nil: "byteLength [] = 0"
  by (simp add: byteLength_def)

lemma stringifyItem_bound:
  "byteLength (stringifyItem it)
     \<le> 1000 + 12 * length (itemId it) + 12 * length (thumbnail it) +
        (case itemType it of None \<Rightarrow> 0 | Some t \<Rightarrow> 12 * length t) +
        2 * length (showInt (timestamp it)) +
        byteLength (stringify (itemData it)) + byteLength (stringify (colors it))"
  using byteLength_jsonQuote [of "itemId it"] byteLength_jsonQuote [of "thumbnail it"]
    byteLength_le [of "showInt (timestamp it)"]
    byteLength_jsonQuote [of "''id''"] byteLength_jsonQuote [of "''timestamp''"]
    byteLength_jsonQuote [of "''type''"] byteLength_jsonQuote [of "''data''"]
    byteLength_jsonQuote [of "''colors''"] byteLength_jsonQuote [of "''thumbnail''"]
    byteLength_jsonQuote [of "the (itemType it)"]
  by (cases "itemType it") (simp_all add: stringifyItem_def byteLength_append byteLength_Cons byteLength_Nil)

lemma textRecord_bound: "byteLength (stringify (textRecord t)) \<le> 300 + 12 * length t"
  using byteLength_jsonQuote [of t] byteLength_jsonQuote [of "''type''"]
    byteLength_jsonQuote [of "''text''"]
  by (simp add: textRecord_def byteLength_append byteLength_Cons byteLength_Nil)

lemma plainColors_bound: "byteLength (stringify plainColors) \<le> 1000"
  using byteLength_jsonQuote [of "''foreground''"] byteLength_jsonQuote [of "''background''"]
    byteLength_jsonQuote [of "''#4a28fd''"] byteLength_jsonQuote [of "''#ffffff''"]
  by (simp add: plainColors_def byteLength_append byteLength_Cons byteLength_Nil)

lemma dataType_textRecord: "dataType (textRecord t) = Some ''text''"
  by (simp add: dataType_def textRecord_def)

lemma sampleRecord_size:
  "k < 51 \<Longrightarrow> byteLength (stringifyItem (itemOf (sampleRecord k))) \<le> 4000"
  using stringifyItem_bound [of "itemOf (sampleRecord k)"]
    textRecord_bound [of "replicate (Suc k) CHR ''x''"] plainColors_bound
  by (simp add: itemOf_def sampleRecord_def newHistoryItem_def sampleEnv_def generateId_def
      showInt_def dataType_textRecord)

lemma textRecord_length:
  "length (stringify (textRecord (replicate n CHR ''x''))) = n + 25"
proof -
  have "concat (map jsonEscapeChar (replicate n CHR ''x'')) = replicate n CHR ''x''"
    by (induction n) (simp_all add: jsonEscapeChar_def)
  then show ?thesis by (simp add: textRecord_def jsonQuote_def jsonEscapeChar_def)
qed

lemma textRecords_distinct:
  "distinct (map (\<lambda>k. stringify (textRecord (replicate (Suc k) CHR ''x''))) [0..<n])"
proof -
  have "inj_on (\<lambda>k. stringify (textRecord (replicate (Suc k) CHR ''x''))) (set [0..<n])"
  proof (rule inj_onI)
    fix a b
    assume "stringify (textRecord (replicate (Suc a) CHR ''x''))
          = stringify (textRecord (replicate (Suc b) CHR ''x''))"
    then have "length (stringify (textRecord (replicate (Suc a) CHR ''x'')))
          = length (stringify (textRecord (replicate (Suc b) CHR ''x'')))" by simp
    then show "a = b" by (simp only: textRecord_length) 
  qed
  then show ?thesis by (simp add: distinct_map)
qed

lemma sampleRecords_distinct:
  "distinct (map (\<lambda>r. stringify (fst (snd r))) (map sampleRecord [0..<51]))"
  using textRecords_distinct [of 51] by (simp add: sampleRecord_def comp_def)

lemma emptyStorage_fresh: "getHistory emptyStorage = []"
  by (simp add: getHistory_def emptyStorage_def loadSchema_def isStorageAvailable_def
      createEmptySchema_def)

lemma sampleRecords_fit:
  "\<forall>k. 0 < k \<and> k \<le> length (map sampleRecord [0..<51]) \<longrightarrow>
     schemaSize (schemaOf (historyAfter (take k (map sampleRecord [0..<51])))) \<le> MAX_STORAGE_SIZE \<and>
     isNormal (saveSchema (schemaOf (historyAfter (take k (map sampleRecord [0..<51])))) emptyStorage)"
proof (intro allI impI conjI)
  fix k
  show "schemaSize (schemaOf (historyAfter (take k (map sampleRecord [0..<51])))) \<le> MAX_STORAGE_SIZE"
  proof (rule schemaSize_bound)
    show "length (historyAfter (take k (map sampleRecord [0..<51]))) \<le> 50"
      by (simp add: historyAfter_def MAX_ITEMS_def)
    show "\<forall>it \<in> set (historyAfter (take k (map sampleRecord [0..<51]))).
        byteLength (stringifyItem it) \<le> 4000"
    proof
      fix it
      assume "it \<in> set (historyAfter (take k (map sampleRecord [0..<51])))"
      then have "it \<in> set (map itemOf (take k (map sampleRecord [0..<51])))"
        unfolding historyAfter_def
        using set_take_subset [of MAX_ITEMS "rev (map itemOf (take k (map sampleRecord [0..<51])))"]
        by auto
      then have "it \<in> set (map itemOf (map sampleRecord [0..<51]))"
        using set_take_subset [of k "map sampleRecord [0..<51]"] by auto
      then obtain j where "j < 51" "it = itemOf (sampleRecord j)" by auto
      then show "byteLength (stringifyItem it) \<le> 4000" by (simp add: sampleRecord_size)
    qed
  qed
  show "isNormal (saveSchema (schemaOf (historyAfter (take k (map sampleRecord [0..<51])))) emptyStorage)"
    by (simp add: saveSchema_isNormal emptyStorage_def)
qed

subsection \<open>Items larger than the limit\<close>

lemma escape_wide: "concat (replicate n (jsonEscapeChar (CHR 0xE9))) = replicate n (CHR 0xE9)"
  by (induction n) (simp_all add: jsonEscapeChar_def)

lemma byteLength_wide: "byteLength (replicate n (CHR 0xE9)) = 2 * n"
  by (induction n) (simp_all add: byteLength_def)

lemma wide_data_size:
  "2 * n < byteLength (stringify (textRecord (replicate n (CHR 0xE9))))"
proof -
  have "byteLength (jsonQuote (replicate n (CHR 0xE9))) = 2 * n + 2"
    by (simp add: jsonQuote_def escape_wide byteLength_append byteLength_wide byteLength_Cons
        byteLength_Nil)
  moreover have "byteLength (jsonQuote (replicate n (CHR 0xE9)))
      \<le> byteLength (stringify (textRecord (replicate n (CHR 0xE9))))"
    by (simp add: textRecord_def byteLength_append byteLength_Cons)
  ultimately show ?thesis by simp
qed

lemma wide_data_length:
  "length (stringify (textRecord (replicate n (CHR 0xE9)))) = n + 25"
  by (simp add: textRecord_def jsonQuote_def escape_wide) (simp add: jsonEscapeChar_def)

lemma stringifyItem_data_le: "byteLength (stringify (itemData it)) \<le> byteLength (stringifyItem it)"
proof -
  have "byteLength (jsonQuote ''data'' @ '':'' @ stringify (itemData it))
      \<le> byteLength (stringifyItem it)"
    unfolding stringifyItem_def byteLength_append [of "''{''"] byteLength_append [of "join _ _"]
    by (rule trans_le_add2, rule trans_le_add1, rule byteLength_join_ge) simp
  then show ?thesis by (simp add: byteLength_append byteLength_Cons)
qed

lemma oversized_schema:
  "it \<in> set (items s) \<Longrightarrow> MAX_STORAGE_SIZE < byteLength (stringify (itemData it)) \<Longrightarrow>
   MAX_STORAGE_SIZE < schemaSize s"
  using stringifyItem_data_le [of it] schemaSize_item_le [of it s] by simp

lemma wideRecord_oversized:
  "MAX_STORAGE_SIZE < byteLength (stringify (fst (snd (wideRecord k))))"
  using wide_data_size [of "wideLength + k"]
  by (simp add: wideRecord_def wideText_def wideLength_def MAX_STORAGE_SIZE_def)

lemma wideRecord_length:
  "length (stringifySchema (schemaOf [itemOf (wideRecord k)])) \<le> wideLength + k + 300"
  by (simp add: schemaOf_def stringifySchema_def stringifyItem_def itemOf_def wideRecord_def
      wideText_def newHistoryItem_def sampleEnv_def generateId_def showInt_def wide_data_length
      dataType_textRecord plainColors_def jsonQuote_def jsonEscapeChar_def STORAGE_VERSION_def)

lemma wideRecord_fits:
  "k < 51 \<Longrightarrow> isNormal (saveSchema (schemaOf [itemOf (wideRecord k)]) quotaStorage)"
  using wideRecord_length [of k]
  by (simp add: saveSchema_isNormal quotaStorage_def wideLength_def)

lemma wideRecords_distinct:
  "distinct (map (\<lambda>r. stringify (fst (snd r))) (map wideRecord [0..<n]))"
proof -
  have "inj_on (\<lambda>k. stringify (wideText k)) (set [0..<n])"
  proof (rule inj_onI)
    fix a b
    assume "stringify (wideText a) = stringify (wideText b)"
    then have "length (stringify (wideText a)) = length (stringify (wideText b))" by simp
    then show "a = b" by (simp add: wideText_def wide_data_length)
  qed
  then show ?thesis by (simp add: distinct_map wideRecord_def comp_def)
qed

lemma quotaStorage_fresh: "getHistory quotaStorage = []"
  by (simp add: getHistory_def quotaStorage_def loadSchema_def isStorageAvailable_def
      createEmptySchema_def)

lemma enforceStorageLimit_oversized:
  assumes "MAX_STORAGE_SIZE < byteLength (stringify (itemData new))"
  shows "enforceStorageLimit (schemaOf [new, old]) = schemaOf [new]"
proof -
  have "MAX_STORAGE_SIZE < schemaSize (schemaOf [new, old])"
    by (rule oversized_schema [of new]) (simp_all add: schemaOf_def assms)
  then have "enforceStorageLimit (schemaOf [new, old])
      = enforceStorageLimit ((schemaOf [new, old])\<lparr>items := butlast (items (schemaOf [new, old]))\<rparr>)"
    by (intro enforceStorageLimit_pop) (simp_all add: schemaOf_def)
  also have "\<dots> = enforceStorageLimit (schemaOf [new])" by (simp add: schemaOf_def)
  also have "\<dots> = schemaOf [new]" by (intro enforceStorageLimit_stop) (simp add: schemaOf_def)
  finally show ?thesis .
qed

lemma saveAll_oversized:
  assumes "getHistory st = []"
    and "distinct (map (\<lambda>r. stringify (fst (snd r))) rs)"
    and "\<forall>r \<in> set rs. MAX_STORAGE_SIZE < byteLength (stringify (fst (snd r)))"
    and "\<forall>r \<in> set rs. isNormal (saveSchema (schemaOf [itemOf r]) st)"
  shows "getHistory (saveAll rs st) = (if rs = [] then [] else [itemOf (last rs)])"
  using assms
proof (induction rs rule: rev_induct)
  case Nil
  then show ?case by simp
next
  case (snoc r rs)
  let ?new = "newHistoryItem (fst r) (fst (snd r)) (snd (snd r))"
  have ih: "getHistory (saveAll rs st) = (if rs = [] then [] else [itemOf (last rs)])"
    using snoc by simp
  have nd: "stringify (fst (snd r)) \<notin> set (map (\<lambda>r. stringify (fst (snd r))) rs)"
    using snoc.prems(2) by auto
  have big: "MAX_STORAGE_SIZE < byteLength (stringify (itemData ?new))"
    using snoc.prems(3) by (simp add: newHistoryItem_def)
  have "isNormal (saveSchema (schemaOf [itemOf r]) st)" using snoc.prems(4) by simp
  then have w: "isNormal (saveSchema (schemaOf [?new]) (saveAll rs st))"
    using saveAll_environment [of rs st] by (simp add: saveSchema_isNormal itemOf_def)
  then have av: "available (saveAll rs st)" by (simp add: saveSchema_isNormal)
  have n: "\<not> isDuplicate (fst (snd r)) (getHistory (saveAll rs st))"
  proof (cases "rs = []")
    case True
    then show ?thesis using ih by (simp add: isDuplicate_def)
  next
    case False
    then have "last rs \<in> set rs" by simp
    then have "stringify (fst (snd (last rs))) \<in> set (map (\<lambda>r. stringify (fst (snd r))) rs)"
      unfolding set_map by (rule imageI)
    then have "stringify (fst (snd (last rs))) \<noteq> stringify (fst (snd r))"
      using nd by metis
    then show ?thesis using ih False
      by (simp add: isDuplicate_def itemOf_def newHistoryItem_def)
  qed
  have "getHistory (snd (saveToHistory (fst r) (fst (snd r)) (snd (snd r)) (saveAll rs st))) = [?new]"
  proof (cases "rs = []")
    case True
    have e: "enforceStorageLimit (schemaOf [?new]) = schemaOf [?new]"
      by (intro enforceStorageLimit_stop) (simp add: schemaOf_def)
    show ?thesis
      unfolding saveToHistory_unfold using n ih True e saveSchema_result [OF w] av
      by (simp add: MAX_ITEMS_def getHistory_written)
  next
    case False
    show ?thesis
      unfolding saveToHistory_unfold
      using n ih False enforceStorageLimit_oversized [OF big] saveSchema_result [OF w] av
      by (simp add: MAX_ITEMS_def getHistory_written)
  qed
  then show ?case by (simp add: saveAll_snoc itemOf_def)
qed

text \<open>
  Claim C1 as stated fails on an item that is larger than the limit by itself. A text of
  2,700,000 characters of two bytes each is within the quota of the storage and makes a
  schema of more than \<open>MAX_STORAGE_SIZE\<close> bytes: the insert succeeds and that schema is
  what is stored.
\<close>

theorem saveToHistory_oversized_counterexample:
  "fst (saveToHistory sampleEnv (wideText 0) plainColors quotaStorage)
     = Some (newHistoryItem sampleEnv (wideText 0) plainColors) \<and>
   MAX_STORAGE_SIZE
     < getStorageSize (snd (saveToHistory sampleEnv (wideText 0) plainColors quotaStorage))"
proof -
  let ?new = "newHistoryItem sampleEnv (wideText 0) plainColors"
  have w: "isNormal (saveSchema (schemaOf [?new]) quotaStorage)"
    using wideRecord_fits [of 0] by (simp add: itemOf_def wideRecord_def)
  have e: "enforceStorageLimit (schemaOf [?new]) = schemaOf [?new]"
    by (intro enforceStorageLimit_stop) (simp add: schemaOf_def)
  have n: "\<not> isDuplicate (wideText 0) (getHistory quotaStorage)"
    by (simp add: quotaStorage_fresh isDuplicate_def)
  have s: "saveToHistory sampleEnv (wideText 0) plainColors quotaStorage
      = (Some ?new, quotaStorage\<lparr>slot := Doc (schemaOf [?new])\<rparr>)"
    unfolding saveToHistory_unfold using n e saveSchema_result [OF w]
    by (simp add: quotaStorage_fresh MAX_ITEMS_def)
  have "MAX_STORAGE_SIZE < byteLength (stringify (itemData ?new))"
    using wideRecord_oversized [of 0] by (simp add: newHistoryItem_def wideRecord_def)
  then have "MAX_STORAGE_SIZE < schemaSize (schemaOf [?new])"
    by (intro oversized_schema [of ?new]) (simp_all add: schemaOf_def)
  then show ?thesis
    unfolding s
    by (simp add: getStorageSize_def loadSchema_def isStorageAvailable_def quotaStorage_def
        schemaOf_def)
qed

subsection \<open>Sequences of inserts\<close>

lemma not_duplicate_of_items:
  assumes "stringify d \<notin> set (map (\<lambda>r. stringify (fst (snd r))) rs)"
    and "set its \<subseteq> set (map itemOf rs)"
  shows "\<not> isDuplicate d its"
proof
  assume "isDuplicate d its"
  then obtain it where it: "it \<in> set its" "stringify (itemData it) = stringify d"
    by (auto simp: isDuplicate_def list_ex_iff)
  with assms(2) have "it \<in> set (map itemOf rs)" by blast
  then obtain r where "r \<in> set rs" "it = itemOf r" by auto
  then have "stringify (itemData it) \<in> set (map (\<lambda>r. stringify (fst (snd r))) rs)"
    by (auto simp: itemOf_def newHistoryItem_def)
  with it(2) assms(1) show False by simp
qed

lemma saveAll_prefix:
  assumes "getHistory st = []"
    and "distinct (map (\<lambda>r. stringify (fst (snd r))) rs)"
    and "\<forall>k j. isNormal (saveSchema (schemaOf (take j (rev (map itemOf (take k rs))))) st)"
  shows "\<exists>j. j \<le> MAX_ITEMS \<and> (rs \<noteq> [] \<longrightarrow> 0 < j) \<and>
             getHistory (saveAll rs st) = take j (rev (map itemOf rs))"
  using assms
proof (induction rs rule: rev_induct)
  case Nil
  then show ?case by (intro exI [of _ 0]) simp
next
  case (snoc r rs)
  let ?new = "newHistoryItem (fst r) (fst (snd r)) (snd (snd r))"
  let ?old = "rev (map itemOf rs)"
  have d: "distinct (map (\<lambda>r. stringify (fst (snd r))) rs)"
    and nd: "stringify (fst (snd r)) \<notin> set (map (\<lambda>r. stringify (fst (snd r))) rs)"
    using snoc.prems(2) by auto
  have wr: "\<forall>k j. isNormal (saveSchema (schemaOf (take j (rev (map itemOf (take k rs))))) st)"
  proof (intro allI)
    fix k j
    have "take (min k (length rs)) (rs @ [r]) = take k rs" by (simp add: min_def)
    then show "isNormal (saveSchema (schemaOf (take j (rev (map itemOf (take k rs))))) st)"
      using snoc.prems(3) [rule_format, of j "min k (length rs)"] by simp
  qed
  obtain j where j: "j \<le> MAX_ITEMS" "getHistory (saveAll rs st) = take j ?old"
    using snoc.IH [OF snoc.prems(1) d wr] by blast
  have n: "\<not> isDuplicate (fst (snd r)) (getHistory (saveAll rs st))"
  proof (rule not_duplicate_of_items [OF nd])
    show "set (getHistory (saveAll rs st)) \<subseteq> set (map itemOf rs)"
      unfolding j(2) using set_take_subset [of j ?old] by auto
  qed
  obtain k where k: "enforceStorageLimit (schemaOf (take MAX_ITEMS (?new # take j ?old)))
      = schemaOf (take k (take MAX_ITEMS (?new # take j ?old)))" "0 < k"
    using enforceStorageLimit_schemaOf [of "take MAX_ITEMS (?new # take j ?old)"]
    by (auto simp: MAX_ITEMS_def)
  define j' where "j' = min (min k MAX_ITEMS) (Suc j)"
  have "?new # take j ?old = take (Suc j) (?new # ?old)" by simp
  then have t: "take k (take MAX_ITEMS (?new # take j ?old)) = take j' (rev (map itemOf (rs @ [r])))"
    by (simp add: j'_def itemOf_def min.commute min.left_commute del: take_Suc_Cons)
  have j'pos: "0 < j'" "j' \<le> MAX_ITEMS" using k(2) by (simp_all add: j'_def MAX_ITEMS_def)
  have "isNormal (saveSchema (schemaOf (take j' (rev (map itemOf (rs @ [r]))))) st)"
    using snoc.prems(3) [rule_format, of j' "length (rs @ [r])"] by simp
  then have w: "isNormal (saveSchema (schemaOf (take j' (rev (map itemOf (rs @ [r]))))) (saveAll rs st))"
    using saveAll_environment [of rs st] by (simp add: saveSchema_isNormal)
  then have av: "available (saveAll rs st)" by (simp add: saveSchema_isNormal)
  have "getHistory (snd (saveToHistory (fst r) (fst (snd r)) (snd (snd r)) (saveAll rs st)))
      = take j' (rev (map itemOf (rs @ [r])))"
    unfolding saveToHistory_unfold j(2) k(1) t
    using n [unfolded j(2)] saveSchema_result [OF w] av
    by (simp add: getHistory_written)
  then show ?case using j'pos by (auto simp: saveAll_snoc)
qed


text \<open>
  Claim C7, as the code has it. Every mutation of the file (save, delete, clear, import)
  keeps a history of at most \<open>MAX_ITEMS\<close> items at most that long, so any sequence of
  them does from the empty history. On a store with an empty history, a sequence of
  inserts of records with distinct serializations behaves as follows. When no write is
  refused, the items left are the most recently inserted ones, newest first in the order
  of insertion whatever their time stamps: at least one of them and at most \<open>MAX_ITEMS\<close>.
  When moreover the size limit evicts nothing, these are the \<open>MAX_ITEMS\<close> most recent:
  after 51 inserts exactly 50 items, the first inserted gone. The size limit can leave
  fewer: when every record is larger than \<open>MAX_STORAGE_SIZE\<close> by itself, the last inserted
  item is the only one left.
\<close>

theorem history_capacity:
  assumes "getHistory st = []"
    and "distinct (map (\<lambda>r. stringify (fst (snd r))) rs)"
  shows "((\<forall>k. 0 < k \<and> k \<le> length rs \<longrightarrow>
              schemaSize (schemaOf (historyAfter (take k rs))) \<le> MAX_STORAGE_SIZE \<and>
              isNormal (saveSchema (schemaOf (historyAfter (take k rs))) st)) \<longrightarrow>
            getHistory (saveAll rs st) = take MAX_ITEMS (rev (map itemOf rs)) \<and>
            (length rs = 51 \<longrightarrow>
               length (getHistory (saveAll rs st)) = 50 \<and>
               getHistory (saveAll rs st) = rev (map itemOf (tl rs)))) \<and>
         ((\<forall>k j. isNormal (saveSchema (schemaOf (take j (rev (map itemOf (take k rs))))) st)) \<longrightarrow>
            (\<exists>j. j \<le> MAX_ITEMS \<and> (rs \<noteq> [] \<longrightarrow> 0 < j) \<and>
                 getHistory (saveAll rs st) = take j (rev (map itemOf rs)))) \<and>
         (rs \<noteq> [] \<and>
          (\<forall>r \<in> set rs. MAX_STORAGE_SIZE < byteLength (stringify (fst (snd r))) \<and>
                          isNormal (saveSchema (schemaOf [itemOf r]) st)) \<longrightarrow>
            getHistory (saveAll rs st) = [itemOf (last rs)]) \<and>
         length (getHistory (fold applyMutation ms st)) \<le> MAX_ITEMS \<and>
         (length (getHistory s) \<le> MAX_ITEMS \<longrightarrow>
            length (getHistory (applyMutation m s)) \<le> MAX_ITEMS)"
proof (intro conjI impI)
  assume fit: "\<forall>k. 0 < k \<and> k \<le> length rs \<longrightarrow>
              schemaSize (schemaOf (historyAfter (take k rs))) \<le> MAX_STORAGE_SIZE \<and>
              isNormal (saveSchema (schemaOf (historyAfter (take k rs))) st)"
  have h: "getHistory (saveAll rs st) = historyAfter rs"
    using assms fit by (rule saveAll_history)
  then show "getHistory (saveAll rs st) = take MAX_ITEMS (rev (map itemOf rs))"
    by (simp add: historyAfter_def)
  show "length (getHistory (saveAll rs st)) = 50" if "length rs = 51"
    unfolding h using historyAfter_51 [OF that] by blast
  show "getHistory (saveAll rs st) = rev (map itemOf (tl rs))" if "length rs = 51"
    unfolding h using historyAfter_51 [OF that] by blast
next
  assume "\<forall>k j. isNormal (saveSchema (schemaOf (take j (rev (map itemOf (take k rs))))) st)"
  with assms show "\<exists>j. j \<le> MAX_ITEMS \<and> (rs \<noteq> [] \<longrightarrow> 0 < j) \<and>
                 getHistory (saveAll rs st) = take j (rev (map itemOf rs))"
    by (rule saveAll_prefix)
next
  assume a: "rs \<noteq> [] \<and>
          (\<forall>r \<in> set rs. MAX_STORAGE_SIZE < byteLength (stringify (fst (snd r))) \<and>
                          isNormal (saveSchema (schemaOf [itemOf r]) st))"
  then have "getHistory (saveAll rs st) = (if rs = [] then [] else [itemOf (last rs)])"
    by (intro saveAll_oversized assms) simp_all
  with a show "getHistory (saveAll rs st) = [itemOf (last rs)]" by simp
next
  have "length (getHistory st) \<le> MAX_ITEMS" using assms(1) by simp
  then show "length (getHistory (fold applyMutation ms st)) \<le> MAX_ITEMS"
    by (rule fold_applyMutation_length)
next
  assume "length (getHistory s) \<le> MAX_ITEMS"
  then show "length (getHistory (applyMutation m s)) \<le> MAX_ITEMS"
    by (rule applyMutation_length)
qed

theorem history_capacity_witness:
  "getHistory emptyStorage = [] \<and>
   length (map sampleRecord [0..<51]) = 51 \<and>
   length (getHistory (saveAll (map sampleRecord [0..<51]) emptyStorage)) = 50 \<and>
   getHistory (saveAll (map sampleRecord [0..<51]) emptyStorage)
     = rev (map itemOf (tl (map sampleRecord [0..<51]))) \<and>
   (\<exists>j. j \<le> MAX_ITEMS \<and> 0 < j \<and>
        getHistory (saveAll (map sampleRecord [0..<51]) emptyStorage)
          = take j (rev (map itemOf (map sampleRecord [0..<51])))) \<and>
   getHistory quotaStorage = [] \<and>
   getHistory (saveAll (map wideRecord [0..<51]) quotaStorage) = [itemOf (wideRecord 50)]"
proof -
  have l: "length (map sampleRecord [0..<51]) = 51" by simp
  note s = history_capacity [OF emptyStorage_fresh sampleRecords_distinct]
  have 1: "length (getHistory (saveAll (map sampleRecord [0..<51]) emptyStorage)) = 50 \<and>
      getHistory (saveAll (map sampleRecord [0..<51]) emptyStorage)
        = rev (map itemOf (tl (map sampleRecord [0..<51])))"
    using s [THEN conjunct1] sampleRecords_fit l by blast
  have w: "\<forall>k j. isNormal (saveSchema (schemaOf (take j (rev (map itemOf
      (take k (map sampleRecord [0..<51])))))) emptyStorage)"
    by (simp add: saveSchema_isNormal emptyStorage_def)
  have ne: "map sampleRecord [0..<51] \<noteq> []" by simp
  have 2: "\<exists>j. j \<le> MAX_ITEMS \<and> 0 < j \<and>
        getHistory (saveAll (map sampleRecord [0..<51]) emptyStorage)
          = take j (rev (map itemOf (map sampleRecord [0..<51])))"
    using s [THEN conjunct2, THEN conjunct1] w ne by blast
  have big: "map wideRecord [0..<51] \<noteq> [] \<and>
      (\<forall>r \<in> set (map wideRecord [0..<51]).
         MAX_STORAGE_SIZE < byteLength (stringify (fst (snd r))) \<and>
         isNormal (saveSchema (schemaOf [itemOf r]) quotaStorage))"
    by (auto simp: wideRecord_oversized wideRecord_fits)
  have la: "last (map wideRecord [0..<51]) = wideRecord 50"
    by (simp add: last_map)
  have 3: "getHistory (saveAll (map wideRecord [0..<51]) quotaStorage) = [itemOf (wideRecord 50)]"
    using history_capacity [OF quotaStorage_fresh wideRecords_distinct [of 51],
        THEN conjunct2, THEN conjunct2, THEN conjunct1] big la
    by simp
  show ?thesis using 1 2 3 l emptyStorage_fresh quotaStorage_fresh by blast
qed

text \<open>
  Claim C7 as stated fails when the size limit evicts: 51 distinct records, each larger
  than \<open>MAX_STORAGE_SIZE\<close> when serialized and each within the quota of the storage, are
  all inserted, and one item is left, not 50.
\<close>

theorem history_capacity_oversized_counterexample:
  "length (map wideRecord [0..<51]) = 51 \<and>
   distinct (map wideRecord [0..<51]) \<and>
   length (getHistory (saveAll (map wideRecord [0..<51]) quotaStorage)) = 1"
proof -
  have "getHistory (saveAll (map wideRecord [0..<51]) quotaStorage)
      = (if map wideRecord [0..<51] = [] then [] else [itemOf (last (map wideRecord [0..<51]))])"
  proof (rule saveAll_oversized [OF quotaStorage_fresh wideRecords_distinct])
    show "\<forall>r \<in> set (map wideRecord [0..<51]).
        MAX_STORAGE_SIZE < byteLength (stringify (fst (snd r)))"
      by (auto simp: wideRecord_oversized)
    show "\<forall>r \<in> set (map wideRecord [0..<51]).
        isNormal (saveSchema (schemaOf [itemOf r]) quotaStorage)"
      by (auto simp: wideRecord_fits)
  qed
  moreover have "distinct (map wideRecord [0..<51])"
    using wideRecords_distinct [of 51] by (simp only: distinct_map [of "\<lambda>r. stringify (fst (snd r))"])
  ultimately show ?thesis by simp
qed

section \<open>Properties of the update operation\<close>

lemma find_position:
  "find P xs = Some x \<Longrightarrow>
   length (takeWhile (\<lambda>y. \<not> P y) xs) < length xs \<and> xs ! length (takeWhile (\<lambda>y. \<not> P y) xs) = x \<and> P x"
  by (induction xs) (auto split: if_splits)

lemma find_None_iff_ex: "(find P xs = None) = (\<not> list_ex P xs)"
  by (induction xs) simp_all

text \<open>
  Claim C2, against the update operation modelled from the specification. When no item has
  the id the result is \<^verbatim>\<open>null\<close> and the storage is unchanged. When an item is returned, it is
  the stored item of that id with the time stamp of the call, the new data, colours and
  thumbnail, and its id; the history differs from the old one at that position only, so
  the ids keep their order. With a storage that takes the write, an update of an existing
  id does return an item.
\<close>

theorem updateHistoryItem_in_place:
  "(\<not> list_ex (\<lambda>it. itemId it = i) (getHistory st) \<longrightarrow>
      updateHistoryItem e i d c st = (None, st)) \<and>
   (updateHistoryItem e i d c st = (Some u, st') \<longrightarrow>
      (\<exists>k. k < length (getHistory st) \<and> itemId (getHistory st ! k) = i \<and>
           u = (getHistory st ! k)\<lparr>timestamp := clock e, itemData := d, colors := c,
                                     thumbnail := thumbnailUrl e\<rparr> \<and>
           getHistory st' = (getHistory st)[k := u]) \<and>
      itemId u = i \<and> timestamp u = clock e \<and> itemData u = d \<and> colors u = c \<and>
      thumbnail u = thumbnailUrl e \<and>
      map itemId (getHistory st') = map itemId (getHistory st)) \<and>
   (list_ex (\<lambda>it. itemId it = i) (getHistory st) \<and> available st \<and> capacity st = None \<longrightarrow>
      (\<exists>v s. updateHistoryItem e i d c st = (Some v, s)))"
proof (intro conjI impI)
  assume "\<not> list_ex (\<lambda>it. itemId it = i) (getHistory st)"
  then have "find (\<lambda>it. itemId it = i) (items (loadSchema st)) = None"
    by (simp add: find_None_iff_ex getHistory_def)
  then show "updateHistoryItem e i d c st = (None, st)"
    by (simp add: updateHistoryItem_def)
next
  assume a: "updateHistoryItem e i d c st = (Some u, st')"
  let ?its = "items (loadSchema st)"
  let ?k = "length (takeWhile (\<lambda>it. itemId it \<noteq> i) ?its)"
  from a obtain old where f: "find (\<lambda>it. itemId it = i) ?its = Some old"
    by (cases "find (\<lambda>it. itemId it = i) ?its") (auto simp: updateHistoryItem_def)
  from find_position [OF f] have k: "?k < length ?its" "?its ! ?k = old" "itemId old = i"
    by simp_all
  let ?u = "old\<lparr>timestamp := clock e, itemData := d, colors := c, thumbnail := thumbnailUrl e\<rparr>"
  from a f have u: "u = ?u" and s: "saveSchema ((loadSchema st)\<lparr>items := ?its[?k := ?u]\<rparr>) st = Normal st'"
    by (auto simp: updateHistoryItem_def Let_def split: completion.splits)
  have "version ((loadSchema st)\<lparr>items := ?its[?k := ?u]\<rparr>) = STORAGE_VERSION"
    by (simp add: loadSchema_version)
  with s have "loadSchema st' = (loadSchema st)\<lparr>items := ?its[?k := ?u]\<rparr>"
    by (rule loadSchema_after_save)
  then have g: "getHistory st' = (getHistory st)[?k := u]"
    by (simp add: getHistory_def u)
  show "\<exists>k. k < length (getHistory st) \<and> itemId (getHistory st ! k) = i \<and>
           u = (getHistory st ! k)\<lparr>timestamp := clock e, itemData := d, colors := c,
                                     thumbnail := thumbnailUrl e\<rparr> \<and>
           getHistory st' = (getHistory st)[k := u]"
    using k g u by (intro exI [of _ ?k]) (simp add: getHistory_def)
  show "itemId u = i" "timestamp u = clock e" "itemData u = d" "colors u = c"
    "thumbnail u = thumbnailUrl e"
    using u k(3) by simp_all
  have "map itemId ((getHistory st)[?k := u]) = (map itemId (getHistory st))[?k := itemId u]"
    by (rule map_update)
  also have "\<dots> = map itemId (getHistory st)"
    using k u by (simp add: getHistory_def list_update_same_conv)
  finally show "map itemId (getHistory st') = map itemId (getHistory st)"
    using g by simp
next
  assume a: "list_ex (\<lambda>it. itemId it = i) (getHistory st) \<and> available st \<and> capacity st = None"
  then obtain old where f: "find (\<lambda>it. itemId it = i) (items (loadSchema st)) = Some old"
    using find_None_iff_ex [of "\<lambda>it. itemId it = i" "items (loadSchema st)"]
    by (cases "find (\<lambda>it. itemId it = i) (items (loadSchema st))") (auto simp: getHistory_def)
  from a have "saveSchema sch st = Normal (st\<lparr>slot := Doc sch\<rparr>)" for sch
    by (simp add: saveSchema_def isStorageAvailable_def)
  then show "\<exists>v s. updateHistoryItem e i d c st = (Some v, s)"
    using f by (simp add: updateHistoryItem_def Let_def)
qed

theorem updateHistoryItem_in_place_witness:
  "updateHistoryItem sampleEnv ''x'' (textRecord ''edited'') plainColors (storeOf [itemC, itemA])
     = (Some (itemA\<lparr>timestamp := clock sampleEnv, itemData := textRecord ''edited'',
                    colors := plainColors, thumbnail := thumbnailUrl sampleEnv\<rparr>),
        storeOf [itemC, itemA\<lparr>timestamp := clock sampleEnv, itemData := textRecord ''edited'',
                    colors := plainColors, thumbnail := thumbnailUrl sampleEnv\<rparr>]) \<and>
   updateHistoryItem sampleEnv ''z'' (textRecord ''edited'') plainColors (storeOf [itemC, itemA])
     = (None, storeOf [itemC, itemA]) \<and>
   map itemId (getHistory (storeOf [itemC, itemA\<lparr>timestamp := clock sampleEnv,
       itemData := textRecord ''edited'', colors := plainColors,
       thumbnail := thumbnailUrl sampleEnv\<rparr>]))
     = map itemId (getHistory (storeOf [itemC, itemA]))"
proof -
  have g: "getHistory (storeOf xs) = xs" for xs
    by (simp add: getHistory_def storeOf_def loadSchema_def isStorageAvailable_def STORAGE_VERSION_def)
  have 1: "updateHistoryItem sampleEnv ''x'' (textRecord ''edited'') plainColors (storeOf [itemC, itemA])
     = (Some (itemA\<lparr>timestamp := clock sampleEnv, itemData := textRecord ''edited'',
                    colors := plainColors, thumbnail := thumbnailUrl sampleEnv\<rparr>),
        storeOf [itemC, itemA\<lparr>timestamp := clock sampleEnv, itemData := textRecord ''edited'',
                    colors := plainColors, thumbnail := thumbnailUrl sampleEnv\<rparr>])"
    by (simp add: updateHistoryItem_def storeOf_def loadSchema_def isStorageAvailable_def
        STORAGE_VERSION_def saveSchema_def itemA_def itemC_def sampleItem_def Let_def)
  have 2: "\<not> list_ex (\<lambda>it. itemId it = ''z'') (getHistory (storeOf [itemC, itemA]))"
    by (simp add: g itemA_def itemC_def sampleItem_def)
  show ?thesis
    using 1 2 updateHistoryItem_in_place [of "''z''" "storeOf [itemC, itemA]" sampleEnv
      "textRecord ''edited''" plainColors]
      updateHistoryItem_in_place [of "''x''" "storeOf [itemC, itemA]" sampleEnv
      "textRecord ''edited''" plainColors, THEN conjunct2, THEN conjunct1, rule_format, OF 1]
    by simp
qed

end
